theory Spec2Isabelle
  imports Main "HOL-Library.Sublist"
begin

section \<open>The authenticated API client of JobBuddy-frontend\<close>

text \<open>
  The development embeds the class \<open>ApiClient\<close> (the second module of
  \<^verbatim>\<open>src/services/emailTemplateService.ts\<close>, lines 96 to 448) and the \<open>logout\<close> action of
  \<^verbatim>\<open>src/store/authStore.ts\<close>.

  The client is asynchronous. Every \<open>async\<close> function is cut at its \<open>await\<close>s: the code
  between two \<open>await\<close>s runs without interruption (one event-loop turn) and is one HOL function
  on the \<open>world\<close>; the suspended rest of the function is a \<open>task\<close> that records the \<open>await\<close> it
  stopped at and the local variables it still needs. The network is the environment: a \<open>fetch\<close>
  appends the request to the log \<open>sent\<close> (its index is the identifier of the call) and the
  answer arrives later as an event \<open>deliver\<close>.

  What the model fixes beyond the source:
  \<^item> a response arrives whole: reading its body with \<open>text()\<close> or \<open>json()\<close> needs no further
    event, and both fail together when the body cannot be read;
  \<^item> when a promise settles, the tasks that await it go on one after the other, in the order
    in which they suspended, each up to its next \<open>await\<close>; no claim depends on that order;
  \<^item> the calls of \<open>console\<close> are left out;
  \<^item> the code sets no timeout on \<open>fetch\<close>: a call that is never answered leaves its task
    suspended for ever.
\<close>

subsection \<open>JavaScript values\<close>

text \<open>
  The values that cross the client: what \<open>JSON.parse\<close> returns, what callers pass as \<open>body\<close>
  (type \<open>any\<close>), what the store holds as \<open>tokens\<close>. \<open>undefined\<close> and \<open>null\<close> are both \<open>JNull\<close>:
  the code only tests them for truthiness or reads them through \<open>?.\<close>. Numbers are integers.
  \<open>JBigInt\<close> stands for the values that \<open>JSON.stringify\<close> refuses with a \<open>TypeError\<close>.
\<close>

datatype js_value =
    JNull
  | JBool bool
  | JNum int
  | JStr string
  | JArr "js_value list"
  | JObj "(string \<times> js_value) list"
  | JBigInt int

fun truthy :: "js_value \<Rightarrow> bool" where
  "truthy JNull = False"
| "truthy (JBool b) = b"
| "truthy (JNum n) = (n \<noteq> 0)"
| "truthy (JStr s) = (s \<noteq> [])"
| "truthy (JArr xs) = True"
| "truthy (JObj kvs) = True"
| "truthy (JBigInt n) = (n \<noteq> 0)"

text \<open>\<open>v?.k\<close> for the property names the client reads (none of them exists on a primitive
  or an array).\<close>

fun getprop :: "js_value \<Rightarrow> string \<Rightarrow> js_value" where
  "getprop (JObj kvs) k = (case map_of kvs k of None \<Rightarrow> JNull | Some v \<Rightarrow> v)"
| "getprop v k = JNull"

text \<open>\<open>a || b\<close>\<close>

definition or_else :: "js_value \<Rightarrow> js_value \<Rightarrow> js_value" where
  "or_else a b = (if truthy a then a else b)"

text \<open>Whether \<open>JSON.stringify v\<close> throws.\<close>

fun stringify_throws :: "js_value \<Rightarrow> bool" where
  "stringify_throws (JBigInt n) = True"
| "stringify_throws (JArr xs) = (\<exists>x \<in> set xs. stringify_throws x)"
| "stringify_throws (JObj kvs) = (\<exists>kv \<in> set kvs. stringify_throws (snd kv))"
| "stringify_throws v = False"

text \<open>A thrown value: an \<open>Error\<close> object with its message, or anything else.\<close>

datatype js_exn = ErrorObj string | Thrown js_value

subsection \<open>Strings\<close>

text \<open>
  Strings are lists of characters with codes 0 to 255, each standing for the code unit of that
  value. \<open>trim\<close> removes from both ends the white space and the line terminators of the
  language: of the code units below 256 these are 0x09 to 0x0D, 0x20 and 0xA0 (the no-break
  space); the others, such as U+2028 or U+FEFF, are not characters of these strings.
\<close>

definition startsWith :: "string \<Rightarrow> string \<Rightarrow> bool" where
  "startsWith s p = prefix p s"

definition endsWith :: "string \<Rightarrow> string \<Rightarrow> bool" where
  "endsWith s p = suffix p s"

fun str_includes :: "string \<Rightarrow> string \<Rightarrow> bool" where
  "str_includes [] p = (p = [])"
| "str_includes (c # cs) p = (prefix p (c # cs) \<or> str_includes cs p)"

definition is_space :: "char \<Rightarrow> bool" where
  "is_space c = (c \<in> {CHR 0x09, CHR 0x0A, CHR 0x0B, CHR 0x0C, CHR 0x0D, CHR 0x20, CHR 0xA0})"

definition trim :: "string \<Rightarrow> string" where
  "trim s = rev (dropWhile is_space (rev (dropWhile is_space s)))"

subsection \<open>The environment\<close>

text \<open>
  \<open>VITE_API_URL\<close> is the build-time variable \<open>import.meta.env.VITE_API_URL\<close> (absent when
  unset); \<open>JSON_parse\<close> is the built-in \<open>JSON.parse\<close>, \<open>None\<close> where it throws.
\<close>

record env =
  VITE_API_URL :: "string option"
  JSON_parse :: "string \<Rightarrow> js_value option"

definition API_URL :: "env \<Rightarrow> string" where
  "API_URL e = (case VITE_API_URL e of
       None \<Rightarrow> ''http://localhost:3000/api''
     | Some u \<Rightarrow> (if u \<noteq> [] then u else ''http://localhost:3000/api''))"

subsection \<open>Request Formatter\<close>

definition formatUrl :: "env \<Rightarrow> string \<Rightarrow> string" where
  "formatUrl e endpoint =
     (if startsWith endpoint ''http'' then endpoint
      else
        let cleanEndpoint = (if startsWith endpoint ''/'' then drop 1 endpoint else endpoint);
            baseUrl = (if endsWith (API_URL e) ''/'' then butlast (API_URL e) else API_URL e)
        in baseUrl @ ''/'' @ cleanEndpoint)"

subsection \<open>Credential Store\<close>

text \<open>
  The state of \<open>useAuthStore\<close>. \<open>tokens\<close> holds whatever value was stored (\<open>JNull\<close> for
  \<open>null\<close>): \<open>updateTokens\<close> stores \<open>data.tokens\<close> of the refresh response unchecked. The field
  \<open>error\<close> of \<open>AuthState\<close> is called \<open>lastError\<close> here.
\<close>

record User =
  user_id :: string
  user_email :: string
  user_name :: string

record AuthState =
  user :: "User option"
  tokens :: js_value
  isAuthenticated :: bool
  isLoading :: bool
  lastError :: "string option"

text \<open>\<open>authState.tokens?.accessToken || null\<close>, \<open>None\<close> for \<open>null\<close>.\<close>

definition getAuthToken :: "AuthState \<Rightarrow> js_value option" where
  "getAuthToken s =
     (if truthy (getprop (tokens s) ''accessToken'')
      then Some (getprop (tokens s) ''accessToken'') else None)"

definition getRefreshToken :: "AuthState \<Rightarrow> js_value option" where
  "getRefreshToken s =
     (if truthy (getprop (tokens s) ''refreshToken'')
      then Some (getprop (tokens s) ''refreshToken'') else None)"

definition updateTokens :: "AuthState \<Rightarrow> js_value \<Rightarrow> AuthState" where
  "updateTokens s t = s\<lparr>tokens := t, user := user s, isAuthenticated := isAuthenticated s\<rparr>"

text \<open>The \<open>set\<close> of \<open>logout\<close>'s \<open>finally\<close> block.\<close>

definition clear_session :: "AuthState \<Rightarrow> AuthState" where
  "clear_session s = s\<lparr>user := None, tokens := JNull, isAuthenticated := False\<rparr>"

subsection \<open>Requests, responses, results\<close>

datatype HttpMethod = GET | POST | PUT | DELETE | PATCH

text \<open>A header value: a plain string, or \<open>Bearer t\<close> for the template string
  \<^verbatim>\<open>`Bearer ${t}`\<close>.\<close>

datatype header_value = Plain string | Bearer js_value

type_synonym headers = "(string \<times> header_value) list"

text \<open>Assignment to a property of an object, and the spread \<open>{...base, ...extra}\<close>.\<close>

fun assign :: "string \<Rightarrow> header_value \<Rightarrow> headers \<Rightarrow> headers" where
  "assign k v [] = [(k, v)]"
| "assign k v (p # ps) = (if fst p = k then (k, v) # ps else p # assign k v ps)"

definition spread :: "headers \<Rightarrow> headers \<Rightarrow> headers" where
  "spread base extra = fold (\<lambda>kv. assign (fst kv) (snd kv)) extra base"

text \<open>\<open>RequestOptions\<close>: every field is optional (\<open>http_method\<close> is the field \<open>method\<close>).\<close>

record RequestOptions =
  http_method :: "HttpMethod option"
  headers :: "headers option"
  body :: "js_value option"
  requiresAuth :: "bool option"
  skipRefreshToken :: "bool option"

text \<open>The destructuring defaults of \<open>request\<close>.\<close>

definition method_of :: "RequestOptions \<Rightarrow> HttpMethod" where
  "method_of opts = (case http_method opts of None \<Rightarrow> GET | Some m \<Rightarrow> m)"

definition headers_of :: "RequestOptions \<Rightarrow> headers" where
  "headers_of opts = (case headers opts of None \<Rightarrow> [] | Some h \<Rightarrow> h)"

definition requiresAuth_of :: "RequestOptions \<Rightarrow> bool" where
  "requiresAuth_of opts = (case requiresAuth opts of None \<Rightarrow> True | Some b \<Rightarrow> b)"

definition skipRefreshToken_of :: "RequestOptions \<Rightarrow> bool" where
  "skipRefreshToken_of opts = (case skipRefreshToken opts of None \<Rightarrow> False | Some b \<Rightarrow> b)"

text \<open>\<open>if (body) requestOptions.body = JSON.stringify(body)\<close>: the body that goes on the wire,
  kept as the value that is serialised.\<close>

definition body_of :: "RequestOptions \<Rightarrow> js_value option" where
  "body_of opts = (case body opts of None \<Rightarrow> None | Some b \<Rightarrow> (if truthy b then Some b else None))"

text \<open>What \<open>fetch\<close> is called with.\<close>

record http_request =
  url :: string
  init_method :: HttpMethod
  init_headers :: headers
  init_body :: "js_value option"

text \<open>
  A \<open>Response\<close>: \<open>resp_contentType\<close> is \<open>headers.get('Content-Type')\<close>, \<open>resp_body\<close> the text
  of the body, \<open>None\<close> when reading the body fails (then \<open>text()\<close> and \<open>json()\<close> both reject).
\<close>

record Response =
  resp_status :: nat
  statusText :: string
  resp_contentType :: "string option"
  resp_body :: "string option"

definition ok :: "Response \<Rightarrow> bool" where
  "ok r = (200 \<le> resp_status r \<and> resp_status r \<le> 299)"

datatype fetch_result = Failed js_exn | Resp Response

record ApiResponse =
  data :: js_value
  error :: js_value
  status :: nat

text \<open>How an invocation of \<open>request\<close> ends: its promise is fulfilled or rejected.\<close>

datatype outcome = Returned ApiResponse | Rejected js_exn

subsection \<open>Tasks and the world\<close>

text \<open>Who awaits a \<open>request\<close>: the caller number \<open>k\<close> of the application, or \<open>logout\<close>
  (\<open>await apiClient.post('users/logout', {})\<close>).\<close>

datatype cont = Caller nat | Logout

text \<open>The three \<open>fetch\<close> calls of the client: line 288 (the request), line 364 (the retry,
  with the index of the request it reissues) and line 201 (the refresh-token exchange).\<close>

datatype site = Fetch_request | Fetch_retry nat | Fetch_refresh

text \<open>
  A suspended computation.
  \<^item> \<open>AwaitFetch f u o c\<close>: \<open>request\<close> at line 288, awaiting the answer to call \<open>f\<close>.
  \<^item> \<open>AwaitRefresh p j f u o c r t\<close>: \<open>request\<close> at line 323, awaiting \<open>this.refreshToken()\<close>,
    which itself awaits promise \<open>p\<close>; \<open>j\<close> tells that \<open>refreshToken\<close> found a refresh running
    and returned its promise (line 186), otherwise it stands at line 232. \<open>r\<close> is the first
    response and \<open>t\<close> its text (\<open>responseText\<close>).
  \<^item> \<open>AwaitRetry f u o c t\<close>: \<open>request\<close> at line 364, awaiting the answer to the retry \<open>f\<close>.
  \<^item> \<open>AwaitExchange f p\<close>: the executor of \<open>refreshPromise\<close> at line 201.
\<close>

datatype task =
    AwaitFetch nat string RequestOptions cont
  | AwaitRefresh nat bool nat string RequestOptions cont Response "string option"
  | AwaitRetry nat string RequestOptions cont "string option"
  | AwaitExchange nat nat

text \<open>
  The world: the store, the three fields of the singleton \<open>apiClient\<close>, the promises created
  by \<open>refreshToken\<close> (\<open>None\<close> while pending), the suspended tasks in the order they suspended,
  the log of \<open>fetch\<close> calls, and the outcomes delivered to the callers.
\<close>

record world =
  store :: AuthState
  isRefreshing :: bool
  refreshPromise :: "nat option"
  requestsQueue :: "unit list"
  promises :: "bool option list"
  tasks :: "task list"
  sent :: "(site \<times> http_request) list"
  results :: "(nat \<times> outcome) list"

definition idle :: "AuthState \<Rightarrow> world" where
  "idle s = \<lparr>store = s, isRefreshing = False, refreshPromise = None, requestsQueue = [],
             promises = [], tasks = [], sent = [], results = []\<rparr>"

subsection \<open>Pieces shared by the operations\<close>

text \<open>\<open>await fetch(url, init)\<close>: the call is logged and the rest of the function suspends.\<close>

definition fetch :: "site \<Rightarrow> http_request \<Rightarrow> (nat \<Rightarrow> task) \<Rightarrow> world \<Rightarrow> world" where
  "fetch s rq t w = w\<lparr>sent := sent w @ [(s, rq)], tasks := tasks w @ [t (length (sent w))]\<rparr>"

text \<open>\<open>logout\<close> from its \<open>finally\<close> block on (authStore.ts, lines 121 to 127).\<close>

definition logout_finally :: "world \<Rightarrow> world" where
  "logout_finally w = w\<lparr>store := clear_session (store w)\<rparr>"

text \<open>The promise of \<open>request\<close> settles and whoever awaits it goes on: a caller of the
  application receives the outcome; \<open>logout\<close> leaves its \<open>try\<close> (a rejection is caught and
  logged) and runs its \<open>finally\<close>.\<close>

definition finish :: "cont \<Rightarrow> outcome \<Rightarrow> world \<Rightarrow> world" where
  "finish c out w =
     (case c of
        Caller k \<Rightarrow> w\<lparr>results := results w @ [(k, out)]\<rparr>
      | Logout \<Rightarrow> logout_finally w)"

text \<open>\<open>processQueue\<close> (lines 158 to 161); no code ever adds a callback to the queue.\<close>

definition processQueue :: "world \<Rightarrow> world" where
  "processQueue w = w\<lparr>requestsQueue := []\<rparr>"

subsection \<open>Parsing the response (lines 371 to 412)\<close>

text \<open>The condition of lines 380 to 385; \<open>t\<close> is \<open>responseText\<close>.\<close>

definition wants_json :: "Response \<Rightarrow> string option \<Rightarrow> bool" where
  "wants_json r t =
     (case resp_contentType r of
        None \<Rightarrow> False
      | Some ct \<Rightarrow>
          ct \<noteq> [] \<and>
          (str_includes ct ''application/json'' \<or>
           str_includes ct ''text/json'' \<or>
           (case t of None \<Rightarrow> False | Some s \<Rightarrow> s \<noteq> [] \<and> startsWith (trim s) ''{'')))"

text \<open>\<open>JSON.parse(responseText)\<close> or, without text, \<open>await response.json()\<close>, inside the
  \<open>try\<close> of lines 386 to 398: the pair \<open>(data, error)\<close>.\<close>

definition parse_json :: "env \<Rightarrow> string option \<Rightarrow> js_value \<times> js_value" where
  "parse_json e src =
     (case src of
        None \<Rightarrow> (JNull, JStr ''Invalid JSON response'')
      | Some s \<Rightarrow>
          (case JSON_parse e s of
             None \<Rightarrow> (JNull, JStr ''Invalid JSON response'')
           | Some d \<Rightarrow> (d, JNull)))"

definition decode :: "env \<Rightarrow> Response \<Rightarrow> string option \<Rightarrow> js_value \<times> js_value" where
  "decode e r t =
     (if wants_json r t then
        (case t of
           None \<Rightarrow> parse_json e (resp_body r)
         | Some s \<Rightarrow> if s \<noteq> [] then parse_json e (Some s) else parse_json e (resp_body r))
      else
        (case t of
           None \<Rightarrow> (JNull, JNull)
         | Some s \<Rightarrow> if s \<noteq> [] then (JObj [(''message'', JStr s)], JNull) else (JNull, JNull)))"

text \<open>Lines 371 to 412 for the response \<open>r\<close> and the text \<open>t\<close> held in \<open>responseText\<close>.\<close>

definition respond :: "env \<Rightarrow> Response \<Rightarrow> string option \<Rightarrow> ApiResponse" where
  "respond e r t =
     (let d = fst (decode e r t);
          err = snd (decode e r t);
          err' = (if \<not> ok r
                  then or_else (getprop d ''message'')
                         (or_else (getprop d ''error'')
                            (or_else (JStr (statusText r)) (JStr ''An error occurred'')))
                  else err)
      in \<lparr>data = d, error = err', status = resp_status r\<rparr>)"

text \<open>The \<open>catch\<close> of lines 413 to 420.\<close>

definition network_error :: "js_exn \<Rightarrow> ApiResponse" where
  "network_error x =
     \<lparr>data = JNull,
      error = (case x of ErrorObj m \<Rightarrow> JStr m | Thrown v \<Rightarrow> JStr ''Network error''),
      status = 0\<rparr>"

subsection \<open>\<open>request\<close> up to its first \<open>await\<close> (lines 240 to 288)\<close>

text \<open>The two results that \<open>request\<close> builds without a response (lines 267 to 271 and
  327 to 331).\<close>

definition auth_required :: ApiResponse where
  "auth_required = \<lparr>data = JNull, error = JStr ''Authentication required'', status = 401\<rparr>"

definition auth_failed :: ApiResponse where
  "auth_failed =
     \<lparr>data = JNull, error = JStr ''Authentication failed. Please log in again.'',
      status = 401\<rparr>"

text \<open>The \<open>RequestInit\<close> of lines 276 to 284 and of lines 347 to 355.\<close>

definition request_init :: "string \<Rightarrow> RequestOptions \<Rightarrow> headers \<Rightarrow> http_request" where
  "request_init u opts hs =
     \<lparr>url = u, init_method = method_of opts, init_headers = hs, init_body = body_of opts\<rparr>"

text \<open>\<open>JSON.stringify(body)\<close> at line 283 throws.\<close>

definition body_throws :: "RequestOptions \<Rightarrow> bool" where
  "body_throws opts = (case body_of opts of None \<Rightarrow> False | Some b \<Rightarrow> stringify_throws b)"

text \<open>Lines 275 to 288. Line 283 stands before the \<open>try\<close>: what it throws rejects the
  promise of \<open>request\<close>.\<close>

definition send_request ::
  "string \<Rightarrow> RequestOptions \<Rightarrow> cont \<Rightarrow> headers \<Rightarrow> world \<Rightarrow> world" where
  "send_request u opts c requestHeaders w =
     (if body_throws opts
      then finish c (Rejected (ErrorObj ''Do not know how to serialize a BigInt'')) w
      else fetch Fetch_request (request_init u opts requestHeaders)
             (\<lambda>f. AwaitFetch f u opts c) w)"

definition request :: "env \<Rightarrow> string \<Rightarrow> RequestOptions \<Rightarrow> cont \<Rightarrow> world \<Rightarrow> world" where
  "request e endpoint opts c w =
     (let u = formatUrl e endpoint;
          requestHeaders = spread [(''Content-Type'', Plain ''application/json'')] (headers_of opts)
      in if requiresAuth_of opts then
           (case getAuthToken (store w) of
              Some token \<Rightarrow>
                send_request u opts c (assign ''Authorization'' (Bearer token) requestHeaders) w
            | None \<Rightarrow> finish c (Returned auth_required) w)
         else send_request u opts c requestHeaders w)"

subsection \<open>\<open>logout\<close> (authStore.ts, lines 112 to 128)\<close>

text \<open>Up to its \<open>await\<close>: with an access token it calls \<open>apiClient.post('users/logout', {})\<close>,
  that is \<open>request\<close> with method \<open>POST\<close> and body \<open>{}\<close>, and clears the store only when that
  request has settled; without one it clears the store at once.\<close>

definition logout_options :: RequestOptions where
  "logout_options =
     \<lparr>http_method = Some POST, headers = None, body = Some (JObj []),
      requiresAuth = None, skipRefreshToken = None\<rparr>"

definition logout :: "env \<Rightarrow> world \<Rightarrow> world" where
  "logout e w =
     (if truthy (getprop (tokens (store w)) ''accessToken'')
      then request e ''users/logout'' logout_options Logout w
      else logout_finally w)"

subsection \<open>Refresh Coordinator (lines 184 to 235)\<close>

text \<open>\<open>resolve(b)\<close> followed by the \<open>finally\<close> block of lines 226 to 229.\<close>

definition settle :: "nat \<Rightarrow> bool \<Rightarrow> world \<Rightarrow> world" where
  "settle p b w =
     w\<lparr>promises := (promises w)[p := Some b], isRefreshing := False, refreshPromise := None\<rparr>"

text \<open>The executor of the promise up to its \<open>await\<close> (lines 190 to 207).\<close>

definition executor :: "env \<Rightarrow> nat \<Rightarrow> world \<Rightarrow> world" where
  "executor e p w =
     (case getRefreshToken (store w) of
        None \<Rightarrow> settle p False (logout e w)
      | Some refreshToken \<Rightarrow>
          fetch Fetch_refresh
            \<lparr>url = formatUrl e ''users/refresh-token'', init_method = POST,
             init_headers = [(''Content-Type'', Plain ''application/json'')],
             init_body = Some (JObj [(''refreshToken'', refreshToken)])\<rparr>
            (\<lambda>f. AwaitExchange f p) w)"

text \<open>The executor once the exchange is answered (lines 209 to 225): the world and the value
  the promise is resolved with. \<open>data.tokens\<close> throws when \<open>data\<close> is \<open>null\<close>.\<close>

definition exchange_result :: "env \<Rightarrow> fetch_result \<Rightarrow> world \<Rightarrow> world \<times> bool" where
  "exchange_result e fr w =
     (case fr of
        Failed x \<Rightarrow> (logout e w, False)
      | Resp r \<Rightarrow>
          if \<not> ok r then (logout e w, False)
          else
            (case resp_body r of
               None \<Rightarrow> (logout e w, False)
             | Some s \<Rightarrow>
                 (case JSON_parse e s of
                    None \<Rightarrow> (logout e w, False)
                  | Some d \<Rightarrow>
                      if d = JNull then (logout e w, False)
                      else (w\<lparr>store := updateTokens (store w) (getprop d ''tokens'')\<rparr>, True))))"

subsection \<open>\<open>request\<close> after the refresh (lines 232 to 234 and 325 to 369)\<close>

text \<open>
  A task that awaited the refresh goes on with its outcome \<open>success\<close>: \<open>refreshToken\<close> runs
  \<open>processQueue\<close> unless it had returned the promise of a running refresh, then \<open>request\<close>
  gives up, or retries with the token now in the store, or, without a token, goes on to parse
  the first response.
\<close>

fun after_refresh :: "env \<Rightarrow> bool \<Rightarrow> task \<Rightarrow> world \<Rightarrow> world" where
  "after_refresh e success (AwaitRefresh p joined f u opts c r t) w =
     (let w1 = (if joined then w else processQueue w)
      in if \<not> success then finish c (Returned auth_failed) w1
         else
           (case getAuthToken (store w1) of
              Some token \<Rightarrow>
                fetch (Fetch_retry f)
                  (request_init u opts
                     (spread [(''Content-Type'', Plain ''application/json''),
                              (''Authorization'', Bearer token)] (headers_of opts)))
                  (\<lambda>f'. AwaitRetry f' u opts c t) w1
            | None \<Rightarrow> finish c (Returned (respond e r t)) w1))"
| "after_refresh e success t w = w"

text \<open>\<open>await\<close> on promise \<open>p\<close>: go on at once when it is settled, suspend otherwise.\<close>

definition await_promise :: "env \<Rightarrow> nat \<Rightarrow> task \<Rightarrow> world \<Rightarrow> world" where
  "await_promise e p t w =
     (if p < length (promises w) then
        (case promises w ! p of
           Some b \<Rightarrow> after_refresh e b t w
         | None \<Rightarrow> w\<lparr>tasks := tasks w @ [t]\<rparr>)
      else w\<lparr>tasks := tasks w @ [t]\<rparr>)"

text \<open>\<open>refreshToken\<close> (lines 184 to 232), called by the \<open>request\<close> whose suspended rest is
  \<open>k p joined\<close>.\<close>

definition refreshToken :: "env \<Rightarrow> (nat \<Rightarrow> bool \<Rightarrow> task) \<Rightarrow> world \<Rightarrow> world" where
  "refreshToken e k w =
     (if isRefreshing w then
        (case refreshPromise w of
           Some p \<Rightarrow> await_promise e p (k p True) w
         | None \<Rightarrow> after_refresh e False (k 0 True) w)
      else
        let p = length (promises w);
            w1 = executor e p (w\<lparr>isRefreshing := True, promises := promises w @ [None]\<rparr>);
            w2 = w1\<lparr>refreshPromise := Some p\<rparr>
        in await_promise e p (k p False) w2)"

subsection \<open>Resuming on a network answer\<close>

text \<open>\<open>request\<close> from line 289 to line 323 or to its return.\<close>

definition on_response ::
  "env \<Rightarrow> nat \<Rightarrow> string \<Rightarrow> RequestOptions \<Rightarrow> cont \<Rightarrow> fetch_result \<Rightarrow> world \<Rightarrow> world" where
  "on_response e f u opts c fr w =
     (case fr of
        Failed x \<Rightarrow> finish c (Returned (network_error x)) w
      | Resp r \<Rightarrow>
          if resp_status r = 401 \<and> requiresAuth_of opts \<and> \<not> skipRefreshToken_of opts
          then refreshToken e (\<lambda>p joined. AwaitRefresh p joined f u opts c r (resp_body r)) w
          else finish c (Returned (respond e r (resp_body r))) w)"

text \<open>\<open>request\<close> from line 365 on: the retry's response with the text read at line 312.\<close>

definition on_retry_response ::
  "env \<Rightarrow> cont \<Rightarrow> string option \<Rightarrow> fetch_result \<Rightarrow> world \<Rightarrow> world" where
  "on_retry_response e c t fr w =
     (case fr of
        Failed x \<Rightarrow> finish c (Returned (network_error x)) w
      | Resp r \<Rightarrow> finish c (Returned (respond e r t)) w)"

definition waits_on :: "nat \<Rightarrow> task \<Rightarrow> bool" where
  "waits_on p t = (case t of AwaitRefresh q j f u opts c r tx \<Rightarrow> q = p | _ \<Rightarrow> False)"

text \<open>All tasks awaiting promise \<open>p\<close> go on, in the order they suspended.\<close>

definition wake :: "env \<Rightarrow> nat \<Rightarrow> bool \<Rightarrow> world \<Rightarrow> world" where
  "wake e p b w =
     fold (after_refresh e b) (filter (waits_on p) (tasks w))
       (w\<lparr>tasks := filter (\<lambda>t. \<not> waits_on p t) (tasks w)\<rparr>)"

definition on_exchange_response :: "env \<Rightarrow> nat \<Rightarrow> fetch_result \<Rightarrow> world \<Rightarrow> world" where
  "on_exchange_response e p fr w =
     wake e p (snd (exchange_result e fr w)) (settle p (snd (exchange_result e fr w))
       (fst (exchange_result e fr w)))"

definition awaits_fetch :: "nat \<Rightarrow> task \<Rightarrow> bool" where
  "awaits_fetch f t =
     (case t of
        AwaitFetch g u opts c \<Rightarrow> g = f
      | AwaitRetry g u opts c tx \<Rightarrow> g = f
      | AwaitExchange g p \<Rightarrow> g = f
      | _ \<Rightarrow> False)"

fun resume :: "env \<Rightarrow> fetch_result \<Rightarrow> task \<Rightarrow> world \<Rightarrow> world" where
  "resume e fr (AwaitFetch f u opts c) w = on_response e f u opts c fr w"
| "resume e fr (AwaitRetry f u opts c t) w = on_retry_response e c t fr w"
| "resume e fr (AwaitExchange f p) w = on_exchange_response e p fr w"
| "resume e fr (AwaitRefresh p j f u opts c r t) w = w"

text \<open>The network answers call \<open>f\<close>: the task that awaits it is taken off the list and goes
  on; an answer nobody awaits changes nothing.\<close>

definition deliver :: "env \<Rightarrow> nat \<Rightarrow> fetch_result \<Rightarrow> world \<Rightarrow> world" where
  "deliver e f fr w =
     (case filter (awaits_fetch f) (tasks w) of
        [] \<Rightarrow> w
      | t # ts \<Rightarrow> resume e fr t (w\<lparr>tasks := remove1 t (tasks w)\<rparr>))"

subsection \<open>Runs\<close>

text \<open>What happens to the client: caller \<open>k\<close> invokes \<open>request\<close>, or the network answers a
  call.\<close>

datatype event = Call nat string RequestOptions | Deliver nat fetch_result

fun step :: "env \<Rightarrow> world \<Rightarrow> event \<Rightarrow> world" where
  "step e w (Call k endpoint opts) = request e endpoint opts (Caller k) w"
| "step e w (Deliver f fr) = deliver e f fr w"

definition run :: "env \<Rightarrow> world \<Rightarrow> event list \<Rightarrow> world" where
  "run e w evs = foldl (step e) w evs"

subsection \<open>Observations on runs\<close>

text \<open>Every outcome delivered to a caller so far is a returned result.\<close>

definition is_returned :: "outcome \<Rightarrow> bool" where
  "is_returned out = (case out of Returned r \<Rightarrow> True | Rejected x \<Rightarrow> False)"

definition all_returned :: "world \<Rightarrow> bool" where
  "all_returned w = list_all (\<lambda>ko. is_returned (snd ko)) (results w)"

text \<open>Every invocation in the list of events passes a body that \<open>JSON.stringify\<close> accepts.\<close>

definition serialisable :: "event \<Rightarrow> bool" where
  "serialisable ev = (case ev of Call k endpoint opts \<Rightarrow> \<not> body_throws opts | Deliver f fr \<Rightarrow> True)"

text \<open>The number of refresh-token exchanges sent so far.\<close>

definition refresh_calls :: "world \<Rightarrow> nat" where
  "refresh_calls w = length (filter (\<lambda>sr. fst sr = Fetch_refresh) (sent w))"

text \<open>The event is the answer to a refresh-token exchange.\<close>

definition answers_exchange :: "world \<Rightarrow> event \<Rightarrow> bool" where
  "answers_exchange w ev =
     (case ev of
        Call k endpoint opts \<Rightarrow> False
      | Deliver f fr \<Rightarrow>
          (case filter (awaits_fetch f) (tasks w) of
             AwaitExchange g p # ts \<Rightarrow> True
           | _ \<Rightarrow> False))"

text \<open>Along the run no exchange is answered: a refresh that starts stays in flight.\<close>

fun exchange_in_flight :: "env \<Rightarrow> world \<Rightarrow> event list \<Rightarrow> bool" where
  "exchange_in_flight e w [] = True"
| "exchange_in_flight e w (ev # evs) =
     (\<not> answers_exchange w ev \<and> exchange_in_flight e (step e w ev) evs)"

text \<open>The refresh-token exchanges that are in flight.\<close>

definition is_exchange :: "task \<Rightarrow> bool" where
  "is_exchange t = (case t of AwaitExchange f p \<Rightarrow> True | _ \<Rightarrow> False)"

definition exchanges_pending :: "world \<Rightarrow> nat" where
  "exchanges_pending w = length (filter is_exchange (tasks w))"

text \<open>
  Two relations between a world and a later one: \<open>calm\<close>, when the coordinator is in the same
  state and no exchange was sent or answered; \<open>starts\<close>, when at most one refresh started, out
  of the idle state.
\<close>

definition calm :: "world \<Rightarrow> world \<Rightarrow> bool" where
  "calm w w' = (isRefreshing w' = isRefreshing w \<and> refresh_calls w' = refresh_calls w \<and>
                exchanges_pending w' = exchanges_pending w)"

definition starts :: "world \<Rightarrow> world \<Rightarrow> bool" where
  "starts w w' =
     (calm w w' \<or>
      (\<not> isRefreshing w \<and> isRefreshing w' \<and> refresh_calls w' = refresh_calls w + 1 \<and>
       exchanges_pending w' = exchanges_pending w + 1))"

text \<open>Since the count was \<open>n\<close>, at most one exchange was sent, and then it is still
  running.\<close>

definition at_most_one_more :: "nat \<Rightarrow> world \<Rightarrow> bool" where
  "at_most_one_more n w = (refresh_calls w = n \<or> (refresh_calls w = n + 1 \<and> isRefreshing w))"

text \<open>Exactly the running refresh has an exchange in flight.\<close>

definition one_exchange :: "world \<Rightarrow> bool" where
  "one_exchange w = (exchanges_pending w = (if isRefreshing w then 1 else 0))"

text \<open>The request that \<open>logout\<close> sends when the store holds the access token \<open>token\<close>.\<close>

definition logout_request :: "env \<Rightarrow> js_value \<Rightarrow> http_request" where
  "logout_request e token =
     request_init (formatUrl e ''users/logout'') logout_options
       [(''Content-Type'', Plain ''application/json''), (''Authorization'', Bearer token)]"





text \<open>
  The outcome of a refresh. \<open>waiting_caller\<close> names the caller of a request suspended on
  a refresh promise (\<open>logout\<close> has none); \<open>refused\<close> is an answer to the exchange
  with which \<open>refreshToken\<close> resolves to \<open>false\<close>: a network failure or a response
  that is not \<open>ok\<close> (lines 207 to 211 and 222 to 226).
\<close>

fun waiting_caller :: "task \<Rightarrow> nat option" where
  "waiting_caller (AwaitRefresh p j f u opts (Caller k) r t) = Some k"
| "waiting_caller t = None"

definition is_waiter :: "task \<Rightarrow> bool" where
  "is_waiter t = (case t of AwaitRefresh p j f u opts c r tx \<Rightarrow> True | _ \<Rightarrow> False)"

definition refused :: "fetch_result \<Rightarrow> bool" where
  "refused fr = (case fr of Failed y \<Rightarrow> True | Resp rr \<Rightarrow> \<not> ok rr)"

subsection \<open>Concrete inputs\<close>

text \<open>A \<open>JSON.parse\<close> that knows the texts used below, and a client configured with the
  default base URL.\<close>

definition sample_parse :: "string \<Rightarrow> js_value option" where
  "sample_parse = map_of
     [(''{\"ok\":true}'', JObj [(''ok'', JBool True)]),
      (''{\"message\":\"Unauthorized\"}'', JObj [(''message'', JStr ''Unauthorized'')]),
      (''{\"tokens\":{\"accessToken\":\"new\",\"refreshToken\":\"r2\"}}'',
         JObj [(''tokens'',
                JObj [(''accessToken'', JStr ''new''), (''refreshToken'', JStr ''r2'')])]),
      (''{}'', JObj [])]"

definition sample_env :: env where
  "sample_env = \<lparr>VITE_API_URL = None, JSON_parse = sample_parse\<rparr>"

definition sample_session :: AuthState where
  "sample_session =
     \<lparr>user = Some \<lparr>user_id = ''1'', user_email = ''a@b.c'', user_name = ''A''\<rparr>,
      tokens = JObj [(''accessToken'', JStr ''old''), (''refreshToken'', JStr ''r1'')],
      isAuthenticated = True, isLoading = False, lastError = None\<rparr>"

definition no_options :: RequestOptions where
  "no_options = \<lparr>http_method = None, headers = None, body = None, requiresAuth = None,
                  skipRefreshToken = None\<rparr>"

definition unauthorized :: Response where
  "unauthorized =
     \<lparr>resp_status = 401, statusText = ''Unauthorized'',
      resp_contentType = Some ''application/json'',
      resp_body = Some ''{\"message\":\"Unauthorized\"}''\<rparr>"

definition new_tokens :: Response where
  "new_tokens =
     \<lparr>resp_status = 200, statusText = ''OK'', resp_contentType = Some ''application/json'',
      resp_body = Some ''{\"tokens\":{\"accessToken\":\"new\",\"refreshToken\":\"r2\"}}''\<rparr>"

definition ok_true :: Response where
  "ok_true =
     \<lparr>resp_status = 200, statusText = ''OK'', resp_contentType = Some ''application/json'',
      resp_body = Some ''{\"ok\":true}''\<rparr>"

definition public_options :: RequestOptions where
  "public_options = \<lparr>http_method = Some POST, headers = None, body = None,
                      requiresAuth = Some False, skipRefreshToken = None\<rparr>"

definition bare_json :: Response where
  "bare_json =
     \<lparr>resp_status = 200, statusText = ''OK'', resp_contentType = None,
      resp_body = Some ''{\"ok\":true}''\<rparr>"

definition garbled_json :: Response where
  "garbled_json =
     \<lparr>resp_status = 200, statusText = ''OK'', resp_contentType = Some ''application/json'',
      resp_body = Some ''<html>''\<rparr>"

definition garbled_error :: Response where
  "garbled_error =
     \<lparr>resp_status = 500, statusText = ''Internal Server Error'',
      resp_contentType = Some ''application/json'', resp_body = Some ''<html>''\<rparr>"

text \<open>Three invocations and a 401 for each of them, the second one answered first.\<close>

definition three_unauthorized :: "event list" where
  "three_unauthorized =
     [Call 0 ''jobs'' no_options, Call 1 ''a'' no_options, Call 2 ''b'' no_options,
      Deliver 1 (Resp unauthorized), Deliver 0 (Resp unauthorized),
      Deliver 2 (Resp unauthorized)]"

text \<open>A request that finds a refresh running; the world in which one runs; a world in which
  one caller awaits the exchange; an invocation whose request fails on the network.\<close>

definition late_caller :: "nat \<Rightarrow> bool \<Rightarrow> task" where
  "late_caller p j =
     AwaitRefresh p j 5 ''http://host/late'' no_options (Caller 9) unauthorized None"

definition refreshing_world :: world where
  "refreshing_world =
     run sample_env (idle sample_session)
       [Call 0 ''jobs'' no_options, Deliver 0 (Resp unauthorized)]"

definition awaiting_exchange :: world where
  "awaiting_exchange =
     (idle sample_session)
       \<lparr>tasks := [AwaitExchange 1 0,
                  AwaitRefresh 0 False 0 ''http://host/jobs'' no_options (Caller 0)
                    unauthorized None]\<rparr>"

definition failing_call :: "event list" where
  "failing_call =
     [Call 0 ''jobs'' no_options, Deliver 0 (Failed (ErrorObj ''Failed to fetch''))]"

text \<open>A session with an access token and no refresh token; a refusal of the exchange.\<close>

definition access_only_session :: AuthState where
  "access_only_session = sample_session\<lparr>tokens := JObj [(''accessToken'', JStr ''old'')]\<rparr>"

definition forbidden :: Response where
  "forbidden =
     \<lparr>resp_status = 403, statusText = ''Forbidden'', resp_contentType = None,
      resp_body = Some []\<rparr>"

text \<open>An exchange answered with an empty object, and the parsed body of \<open>new_tokens\<close>.\<close>

definition empty_object :: Response where
  "empty_object =
     \<lparr>resp_status = 200, statusText = ''OK'', resp_contentType = Some ''application/json'',
      resp_body = Some ''{}''\<rparr>"


text \<open>The client after three requests were answered 401: one exchange in flight, three
  requests suspended on its promise.\<close>

definition after_three :: world where
  "after_three = run sample_env (idle sample_session) three_unauthorized"

subsection \<open>The parsing rule in the words of the specification\<close>

text \<open>
  Step 5 of the pipeline as the specification words it: the body is JSON when the content
  type indicates JSON or the first character of the body that is not white space is \<open>{\<close>.
  The content type indicates JSON when \<open>application/json\<close> or \<open>text/json\<close> occurs in it; white
  space is given by its character codes; the first character that is not white space is found
  from the left.
\<close>

definition indicates_json :: "string \<Rightarrow> bool" where
  "indicates_json ct = (sublist ''application/json'' ct \<or> sublist ''text/json'' ct)"

definition white_space :: "char \<Rightarrow> bool" where
  "white_space c = (of_char c \<in> {9, 10, 11, 12, 13, 32, 160 :: nat})"

fun first_non_space :: "string \<Rightarrow> char option" where
  "first_non_space [] = None"
| "first_non_space (c # cs) = (if white_space c then first_non_space cs else Some c)"

definition spec_json_body :: "Response \<Rightarrow> bool" where
  "spec_json_body r =
     ((case resp_contentType r of None \<Rightarrow> False | Some ct \<Rightarrow> indicates_json ct) \<or>
      (case resp_body r of None \<Rightarrow> False | Some s \<Rightarrow> first_non_space s = Some CHR ''{''))"

text \<open>A \<open>Content-Type\<close> header is present and not empty.\<close>

definition has_content_type :: "Response \<Rightarrow> bool" where
  "has_content_type r =
     (case resp_contentType r of None \<Rightarrow> False | Some ct \<Rightarrow> ct \<noteq> [])"

section \<open>Request Formatter\<close>

lemma formatUrl_absolute: "startsWith x ''http'' \<Longrightarrow> formatUrl e x = x"
  by (simp add: formatUrl_def)

lemma formatUrl_slash:
  "formatUrl e (''/'' @ q) =
     (if endsWith (API_URL e) ''/'' then butlast (API_URL e) else API_URL e) @ ''/'' @ q"
  by (simp add: formatUrl_def startsWith_def Let_def)

lemma formatUrl_plain:
  "\<not> startsWith p ''http'' \<Longrightarrow> \<not> startsWith p ''/'' \<Longrightarrow>
   formatUrl e p =
     (if endsWith (API_URL e) ''/'' then butlast (API_URL e) else API_URL e) @ ''/'' @ p"
  by (simp add: formatUrl_def Let_def)

text \<open>
  C9, as stated, fails: a relative path may itself begin with a slash, and only one leading
  slash is removed, so \<open>formatUrl\<close> tells \<open>/foo\<close> from \<open>//foo\<close>.
\<close>

theorem formatUrl_leading_slash_counterexample:
  "formatUrl sample_env ''/foo'' \<noteq> formatUrl sample_env (''/'' @ ''/foo'')"
  by code_simp

text \<open>
  C9, amended. An endpoint that begins with \<open>http\<close> is returned unchanged, hence formatting
  it twice changes nothing. For a relative path \<open>p\<close> that does not itself begin with a slash,
  \<open>formatUrl p = formatUrl ('/' + p)\<close>, and the result is the base URL without one trailing
  slash, one slash, and \<open>p\<close>.
\<close>

theorem formatUrl_normalises:
  "(startsWith x ''http'' \<longrightarrow>
      formatUrl e x = x \<and> formatUrl e (formatUrl e x) = formatUrl e x) \<and>
   (\<not> startsWith p ''http'' \<and> \<not> startsWith p ''/'' \<longrightarrow>
      formatUrl e (''/'' @ p) = formatUrl e p \<and>
      formatUrl e p =
        (if endsWith (API_URL e) ''/'' then butlast (API_URL e) else API_URL e) @ ''/'' @ p)"
  using formatUrl_absolute [of x e] formatUrl_slash [of e p] formatUrl_plain [of p e]
  by simp

theorem formatUrl_normalises_witness:
  "startsWith ''http://host/x'' ''http'' \<and>
   formatUrl sample_env (formatUrl sample_env ''http://host/x'') = ''http://host/x'' \<and>
   \<not> startsWith ''health'' ''http'' \<and> \<not> startsWith ''health'' ''/'' \<and>
   formatUrl sample_env (''/'' @ ''health'') = formatUrl sample_env ''health'' \<and>
   formatUrl sample_env ''health'' = ''http://localhost:3000/api/health''"
proof -
  have a: "startsWith ''http://host/x'' ''http''"
    by (simp add: startsWith_def)
  have b: "\<not> startsWith ''health'' ''http'' \<and> \<not> startsWith ''health'' ''/''"
    by (simp add: startsWith_def)
  have c: "API_URL sample_env = ''http://localhost:3000/api''"
    by (simp add: API_URL_def sample_env_def)
  have d: "\<not> endsWith ''http://localhost:3000/api'' ''/''"
    by (simp add: endsWith_def suffix_to_prefix)
  show ?thesis
    using formatUrl_normalises [of "''http://host/x''" sample_env "''health''"] a b c d
    by simp
qed

section \<open>Authenticated Request Pipeline\<close>

text \<open>
  C7. When \<open>requiresAuth\<close> is true (the default) and the store holds no access token,
  \<open>request\<close> ends at once: the caller receives exactly
  \<open>{data: null, error: "Authentication required", status: 401}\<close> and nothing else changes;
  in particular the log of \<open>fetch\<close> calls is the same, so no network request is made.
\<close>

theorem request_without_token:
  "requiresAuth_of opts \<Longrightarrow> getAuthToken (store w) = None \<Longrightarrow>
   step e w (Call k endpoint opts) =
     w\<lparr>results := results w @
          [(k, Returned \<lparr>data = JNull, error = JStr ''Authentication required'',
                         status = 401\<rparr>)]\<rparr> \<and>
   sent (step e w (Call k endpoint opts)) = sent w"
  by (simp add: request_def finish_def auth_required_def Let_def)

theorem request_without_token_witness:
  "requiresAuth_of no_options \<and>
   getAuthToken (clear_session sample_session) = None \<and>
   results (step sample_env (idle (clear_session sample_session)) (Call 7 ''jobs'' no_options)) =
     [(7, Returned \<lparr>data = JNull, error = JStr ''Authentication required'', status = 401\<rparr>)] \<and>
   sent (step sample_env (idle (clear_session sample_session)) (Call 7 ''jobs'' no_options)) = []"
proof -
  have a: "requiresAuth_of no_options"
    by (simp add: requiresAuth_of_def no_options_def)
  have b: "getAuthToken (store (idle (clear_session sample_session))) = None"
    by (simp add: getAuthToken_def idle_def clear_session_def)
  show ?thesis
    using request_without_token [OF a b, of sample_env 7 "''jobs''"] a b
    by (simp add: idle_def)
qed

text \<open>
  C1 does not hold of the code. After the retry, \<open>request\<close> parses \<open>responseText\<close>, read from
  the first response at line 312 and never read again: with a 401 that carries a body, the
  result has the status of the second response and the data of the first.
\<close>

theorem retry_result_has_first_body:
  "results (run sample_env (idle sample_session)
      [Call 0 ''jobs'' no_options,
       Deliver 0 (Resp unauthorized),
       Deliver 1 (Resp new_tokens),
       Deliver 2 (Resp ok_true)]) =
   [(0, Returned \<lparr>data = JObj [(''message'', JStr ''Unauthorized'')], error = JNull,
                  status = 200\<rparr>)]"
  by code_simp

lemma dropWhile_snoc: "\<not> P c \<Longrightarrow> dropWhile P (xs @ [c]) = dropWhile P xs @ [c]"
  by (induction xs) auto

lemma trim_first: "trim s = (case dropWhile is_space s of [] \<Rightarrow> [] | c # cs \<Rightarrow> c # rev (dropWhile is_space (rev cs)))"
proof (cases "dropWhile is_space s")
  case Nil
  show ?thesis unfolding trim_def Nil by simp
next
  case (Cons c cs)
  then have "\<not> is_space c" using hd_dropWhile [of is_space s] by auto
  then show ?thesis using Cons by (simp add: trim_def dropWhile_snoc)
qed

lemma str_includes_sublist: "str_includes s p \<longleftrightarrow> sublist p s"
  by (induction s) (auto simp: sublist_Cons_right)

lemma is_space_white: "is_space c \<longleftrightarrow> white_space c"
proof -
  have "white_space c \<longleftrightarrow>
        of_char c \<in> {of_char CHR 0x09, of_char CHR 0x0A, of_char CHR 0x0B, of_char CHR 0x0C,
                      of_char CHR 0x0D, of_char CHR 0x20, of_char CHR 0xA0 :: nat}"
    by (simp add: white_space_def)
  also have "\<dots> \<longleftrightarrow> is_space c"
    unfolding is_space_def insert_iff empty_iff of_char_eq_iff by (rule refl)
  finally show ?thesis by simp
qed

lemma first_non_space_dropWhile:
  "first_non_space s = (case dropWhile is_space s of [] \<Rightarrow> None | c # cs \<Rightarrow> Some c)"
  by (induction s) (simp_all add: is_space_white)

lemma startsWith_trim: "startsWith (trim s) ''{'' \<longleftrightarrow> first_non_space s = Some CHR ''{''"
proof (cases "dropWhile is_space s")
  case Nil
  show ?thesis unfolding trim_first first_non_space_dropWhile startsWith_def Nil by simp
next
  case (Cons c cs)
  show ?thesis unfolding trim_first first_non_space_dropWhile startsWith_def Cons by auto
qed

lemma wants_json_spec: "wants_json r (resp_body r) \<longleftrightarrow> has_content_type r \<and> spec_json_body r"
  by (auto simp: wants_json_def has_content_type_def spec_json_body_def indicates_json_def
       startsWith_trim str_includes_sublist split: option.splits)

lemma deliver_new:
  assumes "\<forall>t\<in>set (tasks w). \<not> awaits_fetch f t" and "awaits_fetch f t"
  shows "deliver e f fr (w\<lparr>tasks := tasks w @ [t]\<rparr>) = resume e fr t w"
proof -
  have a: "filter (awaits_fetch f) (tasks w) = []" using assms(1) by (simp add: filter_empty_conv)
  have b: "t \<notin> set (tasks w)" using assms by auto
  have c: "remove1 t (tasks w @ [t]) = tasks w" using b by (simp add: remove1_append remove1_idem)
  show ?thesis using a c assms(2) by (simp add: deliver_def)
qed

lemma deliver_none:
  assumes "\<forall>t\<in>set (tasks w). \<not> awaits_fetch f t"
  shows "deliver e f fr w = w"
proof -
  have a: "filter (awaits_fetch f) (tasks w) = []" using assms(1) by (simp add: filter_empty_conv)
  show ?thesis using a by (simp add: deliver_def)
qed

lemma request_commutes_with_store:
  assumes "\<not> requiresAuth_of opts"
  shows "step e (w\<lparr>store := s\<rparr>) (Call k ep opts) = (step e w (Call k ep opts))\<lparr>store := s\<rparr>"
  using assms by (simp add: request_def send_request_def finish_def fetch_def Let_def)

lemma public_request:
  assumes "\<not> requiresAuth_of opts"
  shows "request e ep opts c w =
     (if body_throws opts
      then finish c (Rejected (ErrorObj ''Do not know how to serialize a BigInt'')) w
      else (w\<lparr>sent := sent w @ [(Fetch_request, request_init (formatUrl e ep) opts
               (spread [(''Content-Type'', Plain ''application/json'')] (headers_of opts)))]\<rparr>)
            \<lparr>tasks := tasks w @ [AwaitFetch (length (sent w)) (formatUrl e ep) opts c]\<rparr>)"
  using assms by (simp add: request_def send_request_def fetch_def Let_def)

lemma public_answer:
  assumes "\<not> requiresAuth_of opts"
  shows "on_response e f u opts (Caller k) fr w =
     w\<lparr>results := results w @ [(k, Returned (case fr of Failed x \<Rightarrow> network_error x | Resp r \<Rightarrow> respond e r (resp_body r)))]\<rparr>"
  using assms by (simp add: on_response_def finish_def split: fetch_result.splits)

text \<open>
  C10. With \<open>requiresAuth\<close> false the invocation does not depend on the store. Two runs
  that differ only in the store stay equal up to the store, when the request is issued and
  when its answer arrives. The request carries the fixed content type and the caller's
  headers only, and whatever the answer is (a 401 included) the caller receives the result
  built from it while the store, the refresh state, the promises and the suspended tasks stay
  as they were and no further request is sent.
\<close>

theorem request_without_auth_ignores_store:
  assumes "\<not> requiresAuth_of opts"
      and "\<forall>t\<in>set (tasks w). \<not> awaits_fetch (length (sent w)) t"
  shows "step e (w\<lparr>store := s\<rparr>) (Call k ep opts) = (step e w (Call k ep opts))\<lparr>store := s\<rparr> \<and>
         step e (step e (w\<lparr>store := s\<rparr>) (Call k ep opts)) (Deliver (length (sent w)) fr) =
         (step e (step e w (Call k ep opts)) (Deliver (length (sent w)) fr))\<lparr>store := s\<rparr> \<and>
         step e (step e w (Call k ep opts)) (Deliver (length (sent w)) fr) =
           (if body_throws opts
            then w\<lparr>results := results w @ [(k, Rejected (ErrorObj ''Do not know how to serialize a BigInt''))]\<rparr>
            else w\<lparr>sent := sent w @ [(Fetch_request, request_init (formatUrl e ep) opts
                         (spread [(''Content-Type'', Plain ''application/json'')] (headers_of opts)))],
                   results := results w @ [(k, Returned (case fr of Failed x \<Rightarrow> network_error x
                                                          | Resp r \<Rightarrow> respond e r (resp_body r)))]\<rparr>)"
proof -
  let ?f = "length (sent w)"
  let ?t = "AwaitFetch ?f (formatUrl e ep) opts (Caller k)"
  have run1: "\<And>v. \<forall>t\<in>set (tasks v). \<not> awaits_fetch (length (sent v)) t \<Longrightarrow>
      deliver e (length (sent v)) fr (request e ep opts (Caller k) v) =
           (if body_throws opts
            then v\<lparr>results := results v @ [(k, Rejected (ErrorObj ''Do not know how to serialize a BigInt''))]\<rparr>
            else v\<lparr>sent := sent v @ [(Fetch_request, request_init (formatUrl e ep) opts
                         (spread [(''Content-Type'', Plain ''application/json'')] (headers_of opts)))],
                   results := results v @ [(k, Returned (case fr of Failed x \<Rightarrow> network_error x
                                                          | Resp r \<Rightarrow> respond e r (resp_body r)))]\<rparr>)"
  proof -
    fix v :: world
    assume q: "\<forall>t\<in>set (tasks v). \<not> awaits_fetch (length (sent v)) t"
    let ?u = "AwaitFetch (length (sent v)) (formatUrl e ep) opts (Caller k)"
    show "?thesis v"
    proof (cases "body_throws opts")
      case True
      have "\<forall>t\<in>set (tasks (finish (Caller k) (Rejected (ErrorObj ''Do not know how to serialize a BigInt'')) v)). \<not> awaits_fetch (length (sent v)) t"
        using q by (simp add: finish_def)
      then show ?thesis using True assms(1)
        by (simp add: public_request deliver_none) (simp add: finish_def)
    next
      case False
      let ?v' = "v\<lparr>sent := sent v @ [(Fetch_request, request_init (formatUrl e ep) opts
               (spread [(''Content-Type'', Plain ''application/json'')] (headers_of opts)))]\<rparr>"
      have a: "\<forall>t\<in>set (tasks ?v'). \<not> awaits_fetch (length (sent v)) t" using q by simp
      have b: "awaits_fetch (length (sent v)) ?u" by (simp add: awaits_fetch_def)
      have "deliver e (length (sent v)) fr (?v'\<lparr>tasks := tasks ?v' @ [?u]\<rparr>) = resume e fr ?u ?v'"
        using deliver_new [OF a b] .
      then show ?thesis using False assms(1)
        by (simp add: public_request public_answer)
    qed
  qed
  have A: "step e (w\<lparr>store := s\<rparr>) (Call k ep opts) = (step e w (Call k ep opts))\<lparr>store := s\<rparr>"
    using request_commutes_with_store [OF assms(1)] .
  note B = run1 [of w, OF assms(2)]
  have "\<forall>t\<in>set (tasks (w\<lparr>store := s\<rparr>)). \<not> awaits_fetch (length (sent (w\<lparr>store := s\<rparr>))) t"
    using assms(2) by simp
  note C = run1 [of "w\<lparr>store := s\<rparr>", OF this]
  show ?thesis using A B C by simp
qed


theorem request_without_auth_ignores_store_witness:
  "\<not> requiresAuth_of public_options \<and>
   tasks (idle sample_session) = [] \<and>
   step sample_env (step sample_env ((idle sample_session)\<lparr>store := clear_session sample_session\<rparr>)
          (Call 0 ''users/login'' public_options)) (Deliver (length (sent (idle sample_session))) (Resp unauthorized)) =
   (step sample_env (step sample_env (idle sample_session) (Call 0 ''users/login'' public_options))
          (Deliver (length (sent (idle sample_session))) (Resp unauthorized)))\<lparr>store := clear_session sample_session\<rparr>"
proof -
  have a: "\<not> requiresAuth_of public_options"
    by (simp add: requiresAuth_of_def public_options_def)
  have b: "\<forall>t\<in>set (tasks (idle sample_session)). \<not> awaits_fetch (length (sent (idle sample_session))) t"
    by (simp add: idle_def)
  have c: "tasks (idle sample_session) = []"
    by (simp add: idle_def)
  show ?thesis
    using request_without_auth_ignores_store [OF a b, of sample_env "clear_session sample_session" 0 "''users/login''" "Resp unauthorized"] a c
    by blast
qed

lemma status_respond: "status (respond e r t) = resp_status r"
  by (simp add: respond_def Let_def)

lemma decode_own_text:
  "decode e r (resp_body r) =
     (if has_content_type r \<and> spec_json_body r
      then (case (case resp_body r of None \<Rightarrow> None | Some s \<Rightarrow> JSON_parse e s) of
              Some d \<Rightarrow> (d, JNull)
            | None \<Rightarrow> (JNull, JStr ''Invalid JSON response''))
      else ((case resp_body r of None \<Rightarrow> JNull
              | Some s \<Rightarrow> if s = [] then JNull else JObj [(''message'', JStr s)]), JNull))"
  unfolding wants_json_spec [symmetric]
  by (simp add: decode_def parse_json_def split: option.splits)

lemma own_text_rule:
  assumes "has_content_type r \<or> \<not> spec_json_body r"
  shows "if spec_json_body r
         then (case (case resp_body r of None \<Rightarrow> None | Some s \<Rightarrow> JSON_parse e s) of
                 Some d \<Rightarrow> data (respond e r (resp_body r)) = d \<and>
                           (ok r \<longrightarrow> error (respond e r (resp_body r)) = JNull)
               | None \<Rightarrow> data (respond e r (resp_body r)) = JNull \<and>
                   error (respond e r (resp_body r)) =
                     (if ok r then JStr ''Invalid JSON response''
                      else if statusText r \<noteq> [] then JStr (statusText r)
                      else JStr ''An error occurred''))
         else data (respond e r (resp_body r)) =
                (case resp_body r of None \<Rightarrow> JNull
                 | Some s \<Rightarrow> if s = [] then JNull else JObj [(''message'', JStr s)]) \<and>
              (ok r \<longrightarrow> error (respond e r (resp_body r)) = JNull)"
  using assms
  by (auto simp: respond_def decode_own_text or_else_def Let_def split: option.splits)

lemma parsed_at_once:
  assumes "\<forall>t\<in>set (tasks w). \<not> awaits_fetch f t"
      and "\<not> (resp_status r = 401 \<and> requiresAuth_of opts \<and> \<not> skipRefreshToken_of opts)"
  shows "step e (w\<lparr>tasks := tasks w @ [AwaitFetch f u opts (Caller k)]\<rparr>) (Deliver f (Resp r)) =
         w\<lparr>results := results w @ [(k, Returned (respond e r (resp_body r)))]\<rparr>"
proof -
  have b: "awaits_fetch f (AwaitFetch f u opts (Caller k))" by (simp add: awaits_fetch_def)
  show ?thesis
    using deliver_new [OF assms(1) b, of e "Resp r"] assms(2)
    by (auto simp: on_response_def finish_def)
qed

lemma parsed_after_refresh:
  assumes "tasks v = [AwaitExchange x p, AwaitRefresh p j g u opts (Caller k) r (resp_body r)]"
      and "ok rr" and "resp_body rr = Some s" and "JSON_parse e s = Some d" and "d \<noteq> JNull"
      and "getAuthToken (updateTokens (store v) (getprop d ''tokens'')) = None"
  shows "results (step e v (Deliver x (Resp rr))) =
           results v @ [(k, Returned (respond e r (resp_body r)))] \<and>
         sent (step e v (Deliver x (Resp rr))) = sent v \<and>
         tasks (step e v (Deliver x (Resp rr))) = []"
proof -
  let ?v = "v\<lparr>tasks := [AwaitRefresh p j g u opts (Caller k) r (resp_body r)]\<rparr>"
  have d: "step e v (Deliver x (Resp rr)) = on_exchange_response e p (Resp rr) ?v"
    using assms(1) by (simp add: deliver_def awaits_fetch_def)
  have x: "exchange_result e (Resp rr) ?v =
             (?v\<lparr>store := updateTokens (store v) (getprop d ''tokens'')\<rparr>, True)"
    using assms(2-5) by (simp add: exchange_result_def)
  show ?thesis unfolding d on_exchange_response_def x using assms(6)
    by (simp add: settle_def wake_def waits_on_def processQueue_def finish_def Let_def)
qed

text \<open>
  C6, amended. \<open>request\<close> parses a response with its own text when the response is not a
  401 that starts a refresh, and also when it is such a 401, the refresh succeeded and the store
  holds no access token to retry with. For such a response, unless it has no (or an empty)
  \<open>Content-Type\<close> header and the first character of its body that is not white space is \<open>{\<close>,
  the body is JSON-decoded exactly when, in the words of the specification, the content type
  indicates JSON or the first character of the body that is not white space is \<open>{\<close>; otherwise
  a non-empty body is kept as \<open>{message: text}\<close> and an empty one gives \<open>null\<close>. A parse failure
  never propagates: the caller receives a result with \<open>data\<close> \<open>null\<close>, whose error is
  \<open>Invalid JSON response\<close> when the status is in 200 to 299, and the status text (or
  \<open>An error occurred\<close>) otherwise.
\<close>

theorem response_parsing:
  "(has_content_type r \<or> \<not> spec_json_body r \<longrightarrow>
      status (respond e r (resp_body r)) = resp_status r \<and>
      (if spec_json_body r
       then (case (case resp_body r of None \<Rightarrow> None | Some s \<Rightarrow> JSON_parse e s) of
               Some d \<Rightarrow> data (respond e r (resp_body r)) = d \<and>
                         (ok r \<longrightarrow> error (respond e r (resp_body r)) = JNull)
             | None \<Rightarrow> data (respond e r (resp_body r)) = JNull \<and>
                 error (respond e r (resp_body r)) =
                   (if ok r then JStr ''Invalid JSON response''
                    else if statusText r \<noteq> [] then JStr (statusText r)
                    else JStr ''An error occurred''))
       else data (respond e r (resp_body r)) =
              (case resp_body r of None \<Rightarrow> JNull
               | Some s \<Rightarrow> if s = [] then JNull else JObj [(''message'', JStr s)]) \<and>
            (ok r \<longrightarrow> error (respond e r (resp_body r)) = JNull))) \<and>
   ((\<forall>t\<in>set (tasks w). \<not> awaits_fetch f t) \<and>
    \<not> (resp_status r = 401 \<and> requiresAuth_of opts \<and> \<not> skipRefreshToken_of opts) \<longrightarrow>
      step e (w\<lparr>tasks := tasks w @ [AwaitFetch f u opts (Caller k)]\<rparr>) (Deliver f (Resp r)) =
        w\<lparr>results := results w @ [(k, Returned (respond e r (resp_body r)))]\<rparr>) \<and>
   (tasks v = [AwaitExchange x p, AwaitRefresh p j g u' opts' (Caller k') r (resp_body r)] \<and>
    ok rr \<and> resp_body rr = Some s' \<and> JSON_parse e s' = Some d' \<and> d' \<noteq> JNull \<and>
    getAuthToken (updateTokens (store v) (getprop d' ''tokens'')) = None \<longrightarrow>
      results (step e v (Deliver x (Resp rr))) =
        results v @ [(k', Returned (respond e r (resp_body r)))] \<and>
      sent (step e v (Deliver x (Resp rr))) = sent v \<and>
      tasks (step e v (Deliver x (Resp rr))) = [])"
  using own_text_rule [of r e] parsed_at_once [of w f r opts e u k]
    parsed_after_refresh [of v x p j g u' opts' k' r rr s' e d'] status_respond [of e r "resp_body r"]
  by blast

text \<open>
  C6, as stated, fails: when the body of a response with status 500 and content type
  \<open>application/json\<close> is not JSON, the error of the result is the status text, not
  \<open>Invalid JSON response\<close> (line 409 replaces the error of every response that is not \<open>ok\<close>).
\<close>

theorem parse_failure_error_counterexample:
  "resp_contentType garbled_error = Some ''application/json'' \<and>
   resp_body garbled_error = Some ''<html>'' \<and>
   JSON_parse sample_env ''<html>'' = None \<and>
   results (run sample_env (idle sample_session)
      [Call 0 ''jobs'' no_options, Deliver 0 (Resp garbled_error)]) =
   [(0, Returned \<lparr>data = JNull, error = JStr ''Internal Server Error'', status = 500\<rparr>)]"
  by code_simp

lemma refreshing_world_waits:
  "tasks refreshing_world =
     [AwaitExchange 1 0,
      AwaitRefresh 0 False 0 ''http://localhost:3000/api/jobs'' no_options (Caller 0) unauthorized
        (resp_body unauthorized)] \<and>
   results refreshing_world = [] \<and>
   getAuthToken (updateTokens (store refreshing_world) (getprop (JObj []) ''tokens'')) = None"
  unfolding refreshing_world_def by code_simp

theorem response_parsing_witness:
  "has_content_type garbled_json \<and> spec_json_body garbled_json \<and>
   status (respond sample_env garbled_json (resp_body garbled_json)) = 200 \<and>
   data (respond sample_env garbled_json (resp_body garbled_json)) = JNull \<and>
   error (respond sample_env garbled_json (resp_body garbled_json)) =
     JStr ''Invalid JSON response'' \<and>
   tasks (idle sample_session) = [] \<and> resp_status garbled_json = 200 \<and>
   step sample_env
     ((idle sample_session)
        \<lparr>tasks := tasks (idle sample_session) @ [AwaitFetch 0 ''u'' no_options (Caller 3)]\<rparr>)
     (Deliver 0 (Resp garbled_json)) =
   (idle sample_session)
     \<lparr>results := results (idle sample_session) @
        [(3, Returned (respond sample_env garbled_json (resp_body garbled_json)))]\<rparr> \<and>
   ok empty_object \<and> resp_body empty_object = Some ''{}'' \<and>
   JSON_parse sample_env ''{}'' = Some (JObj []) \<and>
   results (step sample_env refreshing_world (Deliver 1 (Resp empty_object))) =
     [(0, Returned (respond sample_env unauthorized (resp_body unauthorized)))] \<and>
   sent (step sample_env refreshing_world (Deliver 1 (Resp empty_object))) =
     sent refreshing_world"
proof -
  have a: "\<forall>t\<in>set (tasks (idle sample_session)). \<not> awaits_fetch 0 t"
    by (simp add: idle_def)
  have b: "\<not> (resp_status garbled_json = 401 \<and> requiresAuth_of no_options \<and>
      \<not> skipRefreshToken_of no_options)"
    by (simp add: garbled_json_def)
  have c: "has_content_type garbled_json" "spec_json_body garbled_json" "ok garbled_json"
    "resp_status garbled_json = 200"
    by (simp_all add: has_content_type_def spec_json_body_def indicates_json_def ok_def
          garbled_json_def)
  have d: "(case resp_body garbled_json of None \<Rightarrow> None | Some s \<Rightarrow> JSON_parse sample_env s) = None"
    by (simp add: garbled_json_def sample_env_def sample_parse_def)
  have t: "tasks (idle sample_session) = []"
    by (simp add: idle_def)
  have x: "ok empty_object" "resp_body empty_object = Some ''{}''"
    "JSON_parse sample_env ''{}'' = Some (JObj [])" "JObj [] \<noteq> JNull"
    by (simp_all add: ok_def empty_object_def sample_env_def sample_parse_def)
  have y: "tasks refreshing_world =
     [AwaitExchange 1 0,
      AwaitRefresh 0 False 0 ''http://localhost:3000/api/jobs'' no_options (Caller 0) unauthorized
        (resp_body unauthorized)]"
    "results refreshing_world = []"
    "getAuthToken (updateTokens (store refreshing_world) (getprop (JObj []) ''tokens'')) = None"
    using refreshing_world_waits by blast+
  note T = response_parsing [of garbled_json sample_env "idle sample_session" 0 no_options "''u''" 3
      refreshing_world 1 0 False 0 "''http://localhost:3000/api/jobs''" no_options 0
      empty_object "''{}''" "JObj []"]
  have "has_content_type garbled_json \<or> \<not> spec_json_body garbled_json" using c by simp
  with T have r1: "status (respond sample_env garbled_json (resp_body garbled_json)) = resp_status garbled_json"
    and r2: "data (respond sample_env garbled_json (resp_body garbled_json)) = JNull"
    and r3: "error (respond sample_env garbled_json (resp_body garbled_json)) = JStr ''Invalid JSON response''"
    using c d by simp_all
  have r4: "step sample_env
     ((idle sample_session)
        \<lparr>tasks := tasks (idle sample_session) @ [AwaitFetch 0 ''u'' no_options (Caller 3)]\<rparr>)
     (Deliver 0 (Resp garbled_json)) =
   (idle sample_session)
     \<lparr>results := results (idle sample_session) @
        [(3, Returned (respond sample_env garbled_json (resp_body garbled_json)))]\<rparr>"
    using T a b by blast
  have r5: "results (step sample_env refreshing_world (Deliver 1 (Resp empty_object))) =
              results refreshing_world @
                [(0, Returned (respond sample_env unauthorized (resp_body unauthorized)))] \<and>
            sent (step sample_env refreshing_world (Deliver 1 (Resp empty_object))) =
              sent refreshing_world"
    using response_parsing [of unauthorized sample_env "idle sample_session" 0 no_options "''u''" 3
        refreshing_world 1 0 False 0 "''http://localhost:3000/api/jobs''" no_options 0
        empty_object "''{}''" "JObj []"] x y(1,3)
    by blast
  show ?thesis using r1 r2 r3 r4 r5 c t x y(2) by simp
qed

text \<open>
  The rule leaves out the responses without a \<open>Content-Type\<close> header whose body begins with
  \<open>{\<close>. The test of the first character stands inside the guard of line 380, so that it is
  never reached for them, although the comment of line 383 introduces it for JSON sent
  without a proper content type: such a body is kept as text.
\<close>

lemma brace_without_content_type:
  "first_non_space ''{\"ok\":true}'' = Some CHR ''{'' \<and>
   JSON_parse sample_env ''{\"ok\":true}'' = Some (JObj [(''ok'', JBool True)]) \<and>
   results (run sample_env (idle sample_session)
      [Call 0 ''jobs'' no_options, Deliver 0 (Resp bare_json)]) =
   [(0, Returned \<lparr>data = JObj [(''message'', JStr ''{\"ok\":true}'')], error = JNull, status = 200\<rparr>)]"
  by code_simp

section \<open>No exception leaves the pipeline\<close>

lemma fold_invariant:
  assumes "\<And>t v. P v \<Longrightarrow> P (f t v)" and "P w"
  shows "P (fold f ts w)"
  using assms(2) by (induction ts arbitrary: w) (auto intro: assms(1))

lemma ar_finish: "all_returned w \<Longrightarrow> all_returned (finish c (Returned r) w)"
  by (simp add: finish_def logout_finally_def all_returned_def is_returned_def split: cont.splits)

lemma ar_fetch: "all_returned w \<Longrightarrow> all_returned (fetch s rq t w)"
  by (simp add: fetch_def all_returned_def)

lemma ar_request: "\<not> body_throws opts \<Longrightarrow> all_returned w \<Longrightarrow> all_returned (request e ep opts c w)"
  by (simp add: request_def send_request_def ar_finish ar_fetch Let_def split: option.splits)

lemma logout_body: "\<not> body_throws logout_options"
  by (simp add: body_throws_def body_of_def logout_options_def)

lemma ar_logout: "all_returned w \<Longrightarrow> all_returned (logout e w)"
  by (simp add: logout_def logout_finally_def ar_request logout_body) (simp add: all_returned_def)

lemma ar_settle: "all_returned w \<Longrightarrow> all_returned (settle p b w)"
  by (simp add: settle_def all_returned_def)

lemma ar_executor: "all_returned w \<Longrightarrow> all_returned (executor e p w)"
  by (simp add: executor_def ar_settle ar_logout ar_fetch split: option.splits)

lemma ar_exchange_result: "all_returned w \<Longrightarrow> all_returned (fst (exchange_result e fr w))"
  by (simp add: exchange_result_def ar_logout split: fetch_result.splits option.splits)
     (simp add: all_returned_def)

lemma ar_processQueue: "all_returned w \<Longrightarrow> all_returned (processQueue w)"
  by (simp add: processQueue_def all_returned_def)

lemma ar_after_refresh: "all_returned w \<Longrightarrow> all_returned (after_refresh e b t w)"
  by (cases t) (simp_all add: ar_finish ar_fetch ar_processQueue Let_def split: option.splits)

lemma ar_add_task: "all_returned w \<Longrightarrow> all_returned (w\<lparr>tasks := ts\<rparr>)"
  by (simp add: all_returned_def)

lemma ar_await_promise: "all_returned w \<Longrightarrow> all_returned (await_promise e p t w)"
  by (simp add: await_promise_def ar_after_refresh ar_add_task split: option.splits)

lemma ar_refreshToken: "all_returned w \<Longrightarrow> all_returned (refreshToken e k w)"
proof -
  assume a: "all_returned w"
  have b: "all_returned (w\<lparr>isRefreshing := True, promises := promises w @ [None]\<rparr>)"
    using a by (simp add: all_returned_def)
  have c: "\<And>v q. all_returned v \<Longrightarrow> all_returned (v\<lparr>refreshPromise := q\<rparr>)"
    by (simp add: all_returned_def)
  show ?thesis
    using a by (simp add: refreshToken_def ar_await_promise ar_after_refresh ar_executor b c Let_def split: option.splits)
qed

lemma ar_on_response: "all_returned w \<Longrightarrow> all_returned (on_response e f u opts c fr w)"
  by (simp add: on_response_def ar_finish ar_refreshToken split: fetch_result.splits)

lemma ar_on_retry_response: "all_returned w \<Longrightarrow> all_returned (on_retry_response e c t fr w)"
  by (simp add: on_retry_response_def ar_finish split: fetch_result.splits)

lemma ar_wake: "all_returned w \<Longrightarrow> all_returned (wake e p b w)"
  unfolding wake_def by (rule fold_invariant) (simp_all add: ar_after_refresh ar_add_task)

lemma ar_on_exchange_response: "all_returned w \<Longrightarrow> all_returned (on_exchange_response e p fr w)"
  by (simp add: on_exchange_response_def ar_wake ar_settle ar_exchange_result)

lemma ar_resume: "all_returned w \<Longrightarrow> all_returned (resume e fr t w)"
  by (cases t) (simp_all add: ar_on_response ar_on_retry_response ar_on_exchange_response)

lemma ar_deliver: "all_returned w \<Longrightarrow> all_returned (deliver e f fr w)"
  by (simp add: deliver_def ar_resume ar_add_task split: list.splits)

lemma ar_step: "serialisable ev \<Longrightarrow> all_returned w \<Longrightarrow> all_returned (step e w ev)"
  by (cases ev) (simp_all add: serialisable_def ar_request ar_deliver)

lemma ar_run: "list_all serialisable evs \<Longrightarrow> all_returned w \<Longrightarrow> all_returned (run e w evs)"
  unfolding run_def by (induction evs arbitrary: w) (simp_all add: ar_step)

section \<open>Refresh Coordinator\<close>

lemmas calm_defs = calm_def refresh_calls_def exchanges_pending_def

lemma calm_refl: "calm w w" by (simp add: calm_def)
lemma calm_trans: "calm a b \<Longrightarrow> calm b c \<Longrightarrow> calm a c" by (simp add: calm_def)

lemma calm_finish: "calm w (finish c out w)"
  by (simp add: calm_defs finish_def logout_finally_def split: cont.splits)

lemma calm_fetch: "s \<noteq> Fetch_refresh \<Longrightarrow> \<not> is_exchange (t (length (sent w))) \<Longrightarrow> calm w (fetch s rq t w)"
  by (simp add: calm_defs fetch_def)

lemma calm_request: "calm w (request e ep opts c w)"
  by (simp add: request_def send_request_def calm_finish calm_fetch is_exchange_def Let_def split: option.splits)

lemma calm_logout_finally: "calm w (logout_finally w)"
  by (simp add: calm_defs logout_finally_def)

lemma calm_logout: "calm w (logout e w)"
  by (simp add: logout_def calm_request calm_logout_finally)

lemma calm_processQueue: "calm w (processQueue w)"
  by (simp add: calm_defs processQueue_def)

lemma calm_after_refresh: "calm w (after_refresh e b t w)"
proof (cases t)
  case (AwaitRefresh p j f u opts c r tx)
  have a: "calm w (if j then w else processQueue w)"
    by (simp add: calm_refl calm_processQueue)
  have b: "\<And>v. calm v (if \<not> b then finish c (Returned auth_failed) v
         else (case getAuthToken (store v) of
              Some token \<Rightarrow>
                fetch (Fetch_retry f)
                  (request_init u opts
                     (spread [(''Content-Type'', Plain ''application/json''),
                              (''Authorization'', Bearer token)] (headers_of opts)))
                  (\<lambda>f'. AwaitRetry f' u opts c tx) v
            | None \<Rightarrow> finish c (Returned (respond e r tx)) v))"
    by (simp add: calm_finish calm_fetch is_exchange_def split: option.splits)
  show ?thesis
    unfolding AwaitRefresh after_refresh.simps Let_def
    by (rule calm_trans [OF a b])
qed (simp_all add: calm_refl)

lemma calm_suspend: "\<not> is_exchange t \<Longrightarrow> calm w (w\<lparr>tasks := tasks w @ [t]\<rparr>)"
  by (simp add: calm_defs)

lemma calm_await_promise: "\<not> is_exchange t \<Longrightarrow> calm w (await_promise e p t w)"
  by (simp add: await_promise_def calm_after_refresh calm_suspend split: option.splits)

lemma calm_on_retry_response: "calm w (on_retry_response e c t fr w)"
  by (simp add: on_retry_response_def calm_finish split: fetch_result.splits)

lemma calm_starts: "calm w w' \<Longrightarrow> starts w w'" by (simp add: starts_def)

lemma starts_calm: "starts a b \<Longrightarrow> calm b c \<Longrightarrow> starts a c"
  by (auto simp: starts_def calm_def)

lemma calm_starts_trans: "calm a b \<Longrightarrow> starts b c \<Longrightarrow> starts a c"
  by (auto simp: starts_def calm_def)

lemma executor_starts:
  assumes "\<not> isRefreshing w"
  shows "starts w ((executor e p (w\<lparr>isRefreshing := True, promises := promises w @ [None]\<rparr>))\<lparr>refreshPromise := Some p\<rparr>)"
proof (cases "getRefreshToken (store w)")
  case None
  let ?v = "w\<lparr>isRefreshing := True, promises := promises w @ [None]\<rparr>"
  have "calm ?v (logout e ?v)" by (rule calm_logout)
  then have "refresh_calls (logout e ?v) = refresh_calls w \<and> exchanges_pending (logout e ?v) = exchanges_pending w"
    by (simp add: calm_defs)
  then show ?thesis using None assms
    by (simp add: executor_def settle_def starts_def calm_defs)
next
  case (Some a)
  then show ?thesis using assms
    by (simp add: executor_def fetch_def starts_def calm_defs is_exchange_def)
qed

lemma refreshToken_joins:
  "isRefreshing w \<Longrightarrow> \<forall>p j. \<not> is_exchange (k p j) \<Longrightarrow> calm w (refreshToken e k w)"
  by (simp add: refreshToken_def calm_await_promise calm_after_refresh split: option.splits)

lemma refreshToken_starts:
  assumes "\<forall>p j. \<not> is_exchange (k p j)"
  shows "starts w (refreshToken e k w)"
proof (cases "isRefreshing w")
  case True
  then show ?thesis using assms by (simp add: refreshToken_joins calm_starts)
next
  case False
  let ?v = "(executor e (length (promises w)) (w\<lparr>isRefreshing := True, promises := promises w @ [None]\<rparr>))\<lparr>refreshPromise := Some (length (promises w))\<rparr>"
  have a: "starts w ?v" using executor_starts [OF False] .
  have b: "calm ?v (await_promise e (length (promises w)) (k (length (promises w)) False) ?v)"
    using assms by (simp add: calm_await_promise)
  show ?thesis using False starts_calm [OF a b] by (simp add: refreshToken_def Let_def)
qed

lemma on_response_starts: "starts w (on_response e f u opts c fr w)"
  by (simp add: on_response_def refreshToken_starts calm_starts calm_finish is_exchange_def split: fetch_result.splits)

lemma calm_remove: "\<not> is_exchange t \<Longrightarrow> calm w (w\<lparr>tasks := remove1 t (tasks w)\<rparr>)"
proof -
  assume a: "\<not> is_exchange t"
  have "filter is_exchange (remove1 t xs) = filter is_exchange xs" for xs
    using a by (induction xs) auto
  then show ?thesis by (simp add: calm_defs)
qed

lemma deliver_starts: "\<not> answers_exchange w (Deliver f fr) \<Longrightarrow> starts w (deliver e f fr w)"
proof (cases "filter (awaits_fetch f) (tasks w)")
  case Nil
  then show ?thesis by (simp add: deliver_def calm_starts calm_refl)
next
  case (Cons t ts)
  assume a: "\<not> answers_exchange w (Deliver f fr)"
  let ?v = "w\<lparr>tasks := remove1 t (tasks w)\<rparr>"
  have ne: "\<not> is_exchange t" using a Cons by (cases t) (simp_all add: answers_exchange_def is_exchange_def)
  have c: "calm w ?v" using ne by (rule calm_remove)
  have "starts ?v (resume e fr t ?v)"
    using ne by (cases t) (simp_all add: on_response_starts calm_starts calm_on_retry_response calm_refl is_exchange_def)
  then show ?thesis using Cons calm_starts_trans [OF c] by (simp add: deliver_def)
qed

lemma step_starts: "\<not> answers_exchange w ev \<Longrightarrow> starts w (step e w ev)"
  by (cases ev) (simp_all add: deliver_starts calm_starts calm_request)

lemma starts_at_most: "at_most_one_more n w \<Longrightarrow> starts w w' \<Longrightarrow> at_most_one_more n w'"
  by (auto simp: at_most_one_more_def starts_def calm_def)

lemma run_at_most: "exchange_in_flight e w evs \<Longrightarrow> at_most_one_more n w \<Longrightarrow> at_most_one_more n (run e w evs)"
  unfolding run_def
proof (induction evs arbitrary: w)
  case Nil
  then show ?case by simp
next
  case (Cons ev evs)
  have "at_most_one_more n (step e w ev)"
    using Cons.prems step_starts [of w ev e] starts_at_most by auto
  then show ?case using Cons by simp
qed

lemma join_refresh:
  "isRefreshing w \<Longrightarrow> refreshPromise w = Some p \<Longrightarrow> p < length (promises w) \<Longrightarrow> promises w ! p = None \<Longrightarrow>
   refreshToken e k w = w\<lparr>tasks := tasks w @ [k p True]\<rparr>"
  by (simp add: refreshToken_def await_promise_def)

lemma starts_one: "one_exchange w \<Longrightarrow> starts w w' \<Longrightarrow> one_exchange w'"
  by (auto simp: one_exchange_def starts_def calm_def split: if_splits)

lemma calm_one: "one_exchange w \<Longrightarrow> calm w w' \<Longrightarrow> one_exchange w'"
  by (auto simp: one_exchange_def calm_def)

lemma calm_exchange_result: "calm w (fst (exchange_result e fr w))"
  by (simp add: exchange_result_def calm_logout calm_refl split: fetch_result.splits option.splits)
     (simp add: calm_defs)

lemma calm_wake: "calm w (wake e p b w)"
proof -
  let ?v = "w\<lparr>tasks := filter (\<lambda>t. \<not> waits_on p t) (tasks w)\<rparr>"
  have "filter is_exchange (filter (\<lambda>t. \<not> waits_on p t) xs) = filter is_exchange xs" for xs
    by (induction xs) (auto simp: is_exchange_def waits_on_def split: task.splits)
  then have a: "calm w ?v" by (simp add: calm_defs)
  have "calm w (fold (after_refresh e b) ts ?v)" for ts
    by (rule fold_invariant) (auto intro: calm_trans calm_after_refresh a)
  then show ?thesis by (simp add: wake_def)
qed

lemma exchange_ends:
  assumes "one_exchange w" and "is_exchange t" and "t \<in> set (tasks w)"
  shows "one_exchange (resume e fr t (w\<lparr>tasks := remove1 t (tasks w)\<rparr>))"
proof -
  obtain g p where t: "t = AwaitExchange g p" using assms(2) by (cases t) (simp_all add: is_exchange_def)
  let ?v = "w\<lparr>tasks := remove1 t (tasks w)\<rparr>"
  have "length (filter is_exchange (remove1 t xs)) + 1 = length (filter is_exchange xs)" if "t \<in> set xs" for xs
    using that assms(2) by (induction xs) auto
  then have a: "exchanges_pending ?v + 1 = exchanges_pending w"
    using assms(3) by (simp add: exchanges_pending_def)
  then have b: "exchanges_pending ?v = 0" using assms(1) by (simp add: one_exchange_def split: if_splits)
  let ?x = "fst (exchange_result e fr ?v)"
  let ?b = "snd (exchange_result e fr ?v)"
  have c: "exchanges_pending ?x = 0" using calm_exchange_result [of ?v e fr] b by (simp add: calm_def)
  have d: "one_exchange (settle p ?b ?x)" using c by (simp add: one_exchange_def settle_def exchanges_pending_def)
  have "one_exchange (wake e p ?b (settle p ?b ?x))" using calm_one [OF d calm_wake] .
  then show ?thesis by (simp add: t on_exchange_response_def)
qed

lemma deliver_one: "one_exchange w \<Longrightarrow> one_exchange (deliver e f fr w)"
proof (cases "filter (awaits_fetch f) (tasks w)")
  case Nil
  assume "one_exchange w"
  then show ?thesis using Nil by (simp add: deliver_def)
next
  case (Cons t ts)
  assume a: "one_exchange w"
  have "t \<in> set (filter (awaits_fetch f) (tasks w))" using Cons by simp
  then have m: "t \<in> set (tasks w)" by simp
  show ?thesis
  proof (cases "is_exchange t")
    case True
    then show ?thesis using exchange_ends [OF a True m] Cons by (simp add: deliver_def)
  next
    case False
    then have "\<not> answers_exchange w (Deliver f fr)" using Cons
      by (cases t) (simp_all add: answers_exchange_def is_exchange_def)
    then show ?thesis using starts_one [OF a deliver_starts] by simp
  qed
qed

lemma step_one: "one_exchange w \<Longrightarrow> one_exchange (step e w ev)"
  by (cases ev) (auto intro: deliver_one calm_one calm_request)

lemma run_one: "one_exchange w \<Longrightarrow> one_exchange (run e w evs)"
  unfolding run_def by (induction evs arbitrary: w) (simp_all add: step_one)

lemma one_exchange_idle: "one_exchange (idle s)"
  by (simp add: one_exchange_def idle_def exchanges_pending_def)

lemma logout_eq:
  "logout e w =
     (case getAuthToken (store w) of
        Some token \<Rightarrow>
          w\<lparr>sent := sent w @
               [(Fetch_request,
                 request_init (formatUrl e ''users/logout'') logout_options
                   [(''Content-Type'', Plain ''application/json''), (''Authorization'', Bearer token)])],
            tasks := tasks w @ [AwaitFetch (length (sent w)) (formatUrl e ''users/logout'') logout_options Logout]\<rparr>
      | None \<Rightarrow> w\<lparr>store := clear_session (store w)\<rparr>)"
proof -
  have a: "requiresAuth_of logout_options" "headers_of logout_options = []" "\<not> body_throws logout_options"
    by (simp_all add: requiresAuth_of_def headers_of_def logout_options_def body_throws_def body_of_def)
  show ?thesis
    by (auto simp: logout_def request_def send_request_def fetch_def logout_finally_def getAuthToken_def
          a spread_def Let_def split: option.splits)
qed

lemma results_after_failure:
  "list_all is_waiter ws \<Longrightarrow>
   results (fold (after_refresh e False) ws v) =
     results v @ map (\<lambda>k. (k, Returned auth_failed)) (List.map_filter waiting_caller ws)"
proof (induction ws arbitrary: v)
  case Nil
  then show ?case by (simp add: List.map_filter_simps)
next
  case (Cons t ws)
  then obtain p j f u opts c r tx where t: "t = AwaitRefresh p j f u opts c r tx"
    by (cases t) (simp_all add: is_waiter_def)
  have "results (after_refresh e False t v) =
          results v @ map (\<lambda>k. (k, Returned auth_failed)) (List.map_filter waiting_caller [t])"
    by (cases c) (simp_all add: t finish_def logout_finally_def processQueue_def List.map_filter_simps Let_def)
  moreover have "List.map_filter waiting_caller (t # ws) =
                 List.map_filter waiting_caller [t] @ List.map_filter waiting_caller ws"
    by (simp add: List.map_filter_def)
  ultimately show ?case using Cons by simp
qed

lemma refused_result: "refused fr \<Longrightarrow> exchange_result e fr v = (logout e v, False)"
  by (simp add: refused_def exchange_result_def split: fetch_result.splits)

lemma waiters_not_fetching: "list_all is_waiter ws \<Longrightarrow> filter (awaits_fetch x) ws = []"
  by (induction ws) (auto simp: is_waiter_def awaits_fetch_def split: task.splits)

lemma waiters_on_p:
  "list_all (waits_on p) ws \<Longrightarrow> filter (waits_on p) (ws @ xs) = ws @ filter (waits_on p) xs"
  by (induction ws) auto

lemma waits_on_waiter: "waits_on p t \<Longrightarrow> is_waiter t"
  by (cases t) (simp_all add: waits_on_def is_waiter_def)

lemma tasks_logout:
  "\<exists>xs. tasks (logout e v) = tasks v @ xs \<and> filter (waits_on p) xs = [] \<and> results (logout e v) = results v"
  by (simp add: logout_eq waits_on_def split: option.splits)

lemma all_waiters_refused:
  assumes "tasks w = AwaitExchange x p # ws" and "list_all (waits_on p) ws" and "refused fr"
  shows "results (step e w (Deliver x fr)) =
           results w @ map (\<lambda>k. (k, Returned auth_failed)) (List.map_filter waiting_caller ws)"
proof -
  have wa: "list_all is_waiter ws"
    using assms(2) by (induction ws) (auto dest: waits_on_waiter)
  let ?v = "w\<lparr>tasks := ws\<rparr>"
  have d: "step e w (Deliver x fr) = on_exchange_response e p fr ?v"
    using assms(1) waiters_not_fetching [OF wa, of x] by (simp add: deliver_def awaits_fetch_def)
  obtain xs where xs: "tasks (logout e ?v) = ws @ xs" "filter (waits_on p) xs = []"
    and rs: "results (logout e ?v) = results w"
    using tasks_logout [of e ?v p] by auto
  have f: "filter (waits_on p) (tasks (logout e ?v)) = ws"
    using xs waiters_on_p [OF assms(2), of xs] by simp
  show ?thesis
    unfolding d on_exchange_response_def refused_result [OF assms(3)]
    by (simp add: wake_def settle_def f results_after_failure [OF wa] rs)
qed

text \<open>
  C2. From a state in which no refresh runs, however many invocations are started and
  whatever answers their requests receive (a 401 for each of them, for instance), at most one
  refresh-token exchange is sent as long as the exchange stays in flight, that is as long as
  it is not answered. In every run from the idle client at most one exchange is in flight at
  any moment. A request that receives its 401 while a refresh is running sends nothing:
  \<open>refreshToken\<close> only suspends it on the promise of the running refresh. And the
  requests suspended on that promise, however many, receive the same outcome: when the exchange
  is refused, each of their callers is answered with the 401 result
  \<open>Authentication failed. Please log in again.\<close>, in the order of suspension.
\<close>

theorem single_refresh_exchange:
  "(\<not> isRefreshing w \<and> exchange_in_flight e w evs \<longrightarrow>
      refresh_calls (run e w evs) \<le> refresh_calls w + 1) \<and>
   exchanges_pending (run e (idle s) evs') \<le> 1 \<and>
   (isRefreshing w \<and> refreshPromise w = Some p \<and> p < length (promises w) \<and>
    promises w ! p = None \<longrightarrow>
      refreshToken e k w = w\<lparr>tasks := tasks w @ [k p True]\<rparr>) \<and>
   (tasks w = AwaitExchange x p # ws \<and> list_all (waits_on p) ws \<and> refused fr \<longrightarrow>
      results (step e w (Deliver x fr)) =
        results w @ map (\<lambda>c. (c, Returned auth_failed)) (List.map_filter waiting_caller ws))"
proof -
  have a: "refresh_calls (run e w evs) \<le> refresh_calls w + 1"
    if "\<not> isRefreshing w" and "exchange_in_flight e w evs"
  proof -
    have "at_most_one_more (refresh_calls w) w" by (simp add: at_most_one_more_def)
    then have "at_most_one_more (refresh_calls w) (run e w evs)"
      using that(2) by (rule run_at_most [rotated])
    then show ?thesis by (auto simp: at_most_one_more_def)
  qed
  have "one_exchange (run e (idle s) evs')"
    using one_exchange_idle by (rule run_one)
  then have b: "exchanges_pending (run e (idle s) evs') \<le> 1"
    by (simp add: one_exchange_def split: if_splits)
  show ?thesis using a b join_refresh all_waiters_refused by blast
qed

lemma refreshing_world_eq:
  "isRefreshing refreshing_world \<and> refreshPromise refreshing_world = Some 0 \<and> promises refreshing_world = [None]"
  unfolding refreshing_world_def by code_simp

lemma after_three_eq:
  "tasks after_three = AwaitExchange 3 0 # tl (tasks after_three) \<and>
   list_all (waits_on 0) (tl (tasks after_three)) \<and>
   List.map_filter waiting_caller (tl (tasks after_three)) = [1, 0, 2] \<and>
   results after_three = [] \<and> refresh_calls after_three = 1"
  unfolding after_three_def by code_simp

theorem single_refresh_exchange_witness:
  "\<not> isRefreshing (idle sample_session) \<and>
   exchange_in_flight sample_env (idle sample_session) three_unauthorized \<and>
   refresh_calls (idle sample_session) = 0 \<and>
   refresh_calls (run sample_env (idle sample_session) three_unauthorized) \<le> 0 + 1 \<and>
   isRefreshing refreshing_world \<and> refreshPromise refreshing_world = Some 0 \<and>
   promises refreshing_world ! 0 = None \<and>
   refreshToken sample_env late_caller refreshing_world =
     refreshing_world\<lparr>tasks := tasks refreshing_world @ [late_caller 0 True]\<rparr> \<and>
   refused (Resp forbidden) \<and>
   results (step sample_env after_three (Deliver 3 (Resp forbidden))) =
     [(1, Returned auth_failed), (0, Returned auth_failed), (2, Returned auth_failed)]"
proof -
  have a: "\<not> isRefreshing (idle sample_session)" by (simp add: idle_def)
  have b: "exchange_in_flight sample_env (idle sample_session) three_unauthorized" by code_simp
  have c: "refresh_calls (idle sample_session) = 0" by (simp add: refresh_calls_def idle_def)
  have d: "isRefreshing refreshing_world \<and> refreshPromise refreshing_world = Some 0 \<and> 0 < length (promises refreshing_world) \<and> promises refreshing_world ! 0 = None"
    using refreshing_world_eq by simp
  have r: "refused (Resp forbidden)" by (simp add: refused_def ok_def forbidden_def)
  have t: "tasks after_three = AwaitExchange 3 0 # tl (tasks after_three)"
    and l: "list_all (waits_on 0) (tl (tasks after_three))"
    and m: "List.map_filter waiting_caller (tl (tasks after_three)) = [1, 0, 2]"
    and n: "results after_three = []"
    using after_three_eq by blast+
  have "results (step sample_env after_three (Deliver 3 (Resp forbidden))) =
        results after_three @ map (\<lambda>c. (c, Returned auth_failed))
          (List.map_filter waiting_caller (tl (tasks after_three)))"
    using single_refresh_exchange [of after_three sample_env "[]" sample_session "[]" 0 late_caller 3
        "tl (tasks after_three)" "Resp forbidden"] t l r by blast
  then have e: "results (step sample_env after_three (Deliver 3 (Resp forbidden))) =
     [(1, Returned auth_failed), (0, Returned auth_failed), (2, Returned auth_failed)]"
    using m n by simp
  show ?thesis
    using single_refresh_exchange [of "idle sample_session" sample_env three_unauthorized sample_session "[]" 0 late_caller]
      single_refresh_exchange [of refreshing_world sample_env "[]" sample_session "[]" 0 late_caller] a b c d r e
    by simp
qed

section \<open>Network failures\<close>

lemma own_failure:
  assumes "\<forall>t\<in>set (tasks w). \<not> awaits_fetch f t"
      and "t = AwaitFetch f u opts (Caller k) \<or> t = AwaitRetry f u opts (Caller k) tx"
  shows "step e (w\<lparr>tasks := tasks w @ [t]\<rparr>) (Deliver f (Failed x)) =
         w\<lparr>results := results w @
              [(k, Returned \<lparr>data = JNull,
                             error = JStr (case x of ErrorObj m \<Rightarrow> m | Thrown v \<Rightarrow> ''Network error''),
                             status = 0\<rparr>)]\<rparr>"
proof -
  have "awaits_fetch f t" using assms(2) by (auto simp: awaits_fetch_def)
  then have "deliver e f (Failed x) (w\<lparr>tasks := tasks w @ [t]\<rparr>) = resume e (Failed x) t w"
    using deliver_new [OF assms(1)] by simp
  then show ?thesis using assms(2)
    by (auto simp: on_response_def on_retry_response_def finish_def network_error_def split: js_exn.splits)
qed

lemma exchange_failure:
  assumes "tasks w = [AwaitExchange f p, AwaitRefresh p j g u opts (Caller k) r tx]"
  shows "results (step e w (Deliver f (Failed x))) = results w @ [(k, Returned auth_failed)]"
  using assms
  by (simp add: deliver_def awaits_fetch_def on_exchange_response_def exchange_result_def
        logout_eq settle_def wake_def waits_on_def finish_def processQueue_def
      split: option.splits)

text \<open>
  C8, amended. When every invocation passes a body that \<open>JSON.stringify\<close> accepts, every
  outcome a caller ever receives is a returned result, never a rejection. A network failure
  of the request itself, at the first attempt or at the retry, gives the caller
  \<open>{data: null, error: message, status: 0}\<close>, the message being that of the error, or
  \<open>Network error\<close> when the value thrown is not an \<open>Error\<close>. A network failure of the
  refresh-token exchange gives the caller that awaits the refresh the result
  \<open>{data: null, error: "Authentication failed. Please log in again.", status: 401}\<close>.
\<close>

theorem request_never_throws:
  "(list_all serialisable evs \<and> all_returned w \<longrightarrow> all_returned (run e w evs)) \<and>
   ((\<forall>t\<in>set (tasks w). \<not> awaits_fetch f t) \<and>
    (t = AwaitFetch f u opts (Caller k) \<or> t = AwaitRetry f u opts (Caller k) tx) \<longrightarrow>
      step e (w\<lparr>tasks := tasks w @ [t]\<rparr>) (Deliver f (Failed x)) =
      w\<lparr>results := results w @
           [(k, Returned \<lparr>data = JNull,
                          error = JStr (case x of ErrorObj m \<Rightarrow> m | Thrown v \<Rightarrow> ''Network error''),
                          status = 0\<rparr>)]\<rparr>) \<and>
   (tasks w = [AwaitExchange f p, AwaitRefresh p j g u opts (Caller k) r tx] \<longrightarrow>
      results (step e w (Deliver f (Failed x))) =
      results w @
        [(k, Returned \<lparr>data = JNull, error = JStr ''Authentication failed. Please log in again.'',
                       status = 401\<rparr>)])"
  using ar_run [of evs w e] own_failure [of w f t u opts k tx e x]
    exchange_failure [of w f p j g u opts k r tx e x]
  by (simp add: auth_failed_def)

theorem request_never_throws_witness:
  "list_all serialisable failing_call \<and> all_returned (idle sample_session) \<and>
   all_returned (run sample_env (idle sample_session) failing_call) \<and>
   tasks (idle sample_session) = [] \<and>
   step sample_env ((idle sample_session)\<lparr>tasks := tasks (idle sample_session) @
          [AwaitFetch 0 ''http://host/jobs'' no_options (Caller 0)]\<rparr>)
        (Deliver 0 (Failed (ErrorObj ''Failed to fetch''))) =
     (idle sample_session)\<lparr>results := results (idle sample_session) @
        [(0, Returned \<lparr>data = JNull, error = JStr ''Failed to fetch'', status = 0\<rparr>)]\<rparr> \<and>
   tasks awaiting_exchange =
     [AwaitExchange 1 0,
      AwaitRefresh 0 False 0 ''http://host/jobs'' no_options (Caller 0) unauthorized None] \<and>
   results (step sample_env awaiting_exchange (Deliver 1 (Failed (ErrorObj ''Failed to fetch'')))) =
     results awaiting_exchange @
       [(0, Returned \<lparr>data = JNull, error = JStr ''Authentication failed. Please log in again.'',
                      status = 401\<rparr>)]"
proof -
  have a: "list_all serialisable failing_call"
    by (simp add: failing_call_def serialisable_def body_throws_def body_of_def no_options_def)
  have b: "all_returned (idle sample_session)" by (simp add: all_returned_def idle_def)
  have c: "tasks (idle sample_session) = []" by (simp add: idle_def)
  have d: "tasks awaiting_exchange =
     [AwaitExchange 1 0,
      AwaitRefresh 0 False 0 ''http://host/jobs'' no_options (Caller 0) unauthorized None]"
    by (simp add: awaiting_exchange_def)
  show ?thesis
    using request_never_throws [of failing_call "idle sample_session" sample_env 0
        "AwaitFetch 0 ''http://host/jobs'' no_options (Caller 0)" "''http://host/jobs''" no_options 0 None
        "ErrorObj ''Failed to fetch''" 0 False 0 unauthorized]
      request_never_throws [of failing_call awaiting_exchange sample_env 1
        "AwaitFetch 0 ''http://host/jobs'' no_options (Caller 0)" "''http://host/jobs''" no_options 0 None
        "ErrorObj ''Failed to fetch''" 0 False 0 unauthorized]
      a b c d
    by simp
qed

text \<open>
  C8, as stated, fails: when the network failure is that of the refresh-token exchange the
  status of the result is 401, not 0.
\<close>

theorem refresh_network_failure_counterexample:
  "results (run sample_env (idle sample_session)
      [Call 0 ''jobs'' no_options,
       Deliver 0 (Resp unauthorized),
       Deliver 1 (Failed (ErrorObj ''Failed to fetch''))]) =
   [(0, Returned \<lparr>data = JNull, error = JStr ''Authentication failed. Please log in again.'',
                  status = 401\<rparr>)]"
  by code_simp

section \<open>The session after a refresh that fails\<close>

lemma finish_Logout: "finish Logout out w = w\<lparr>store := clear_session (store w)\<rparr>"
  by (simp add: finish_def logout_finally_def)

lemma clear_clear: "clear_session (clear_session s) = clear_session s"
  by (simp add: clear_session_def)

lemma getAuthToken_clear: "getAuthToken (clear_session s) = None"
  by (simp add: getAuthToken_def clear_session_def)

lemma getRefreshToken_clear: "getRefreshToken (clear_session s) = None"
  by (simp add: getRefreshToken_def clear_session_def)

lemma logout_options_simps:
  "requiresAuth_of logout_options" "\<not> skipRefreshToken_of logout_options"
  by (simp_all add: requiresAuth_of_def skipRefreshToken_of_def logout_options_def)

lemma refreshToken_no_token:
  assumes "\<not> isRefreshing w" and "getRefreshToken (store w) = None"
  shows "refreshToken e (\<lambda>p j. AwaitRefresh p j f u opts c r t) w =
     finish c (Returned auth_failed)
       ((logout e (w\<lparr>promises := promises w @ [None]\<rparr>))
          \<lparr>promises := (promises w @ [None])[length (promises w) := Some False],
           isRefreshing := False, refreshPromise := Some (length (promises w)), requestsQueue := []\<rparr>)"
proof -
  have a: "logout e (w\<lparr>isRefreshing := True, promises := ps\<rparr>) = (logout e (w\<lparr>promises := ps\<rparr>))\<lparr>isRefreshing := True\<rparr>" for ps
    by (simp add: logout_eq split: option.splits)
  have b: "promises (logout e v) = promises v" "store (logout e v) = store v \<or> store (logout e v) = clear_session (store v)" for v
    by (simp_all add: logout_eq split: option.splits)
  show ?thesis using assms
    by (simp add: refreshToken_def executor_def settle_def await_promise_def a b processQueue_def Let_def
          finish_def logout_finally_def split: cont.splits)
qed


lemma store_logout_cleared: "clear_session (store (logout e v)) = clear_session (store v)"
  by (simp add: logout_eq clear_clear split: option.splits)

lemma logout_task_answered:
  assumes "\<not> isRefreshing v" and "getRefreshToken (store v) = None"
  shows "store (on_response e n lu logout_options Logout fr v) = clear_session (store v)"
proof (cases fr)
  case (Failed x)
  then show ?thesis by (simp add: on_response_def finish_Logout)
next
  case (Resp r2)
  show ?thesis
  proof (cases "resp_status r2 = 401")
    case True
    have "store (refreshToken e (\<lambda>p j. AwaitRefresh p j n lu logout_options Logout r2 (resp_body r2)) v) =
          clear_session (store v)"
      unfolding refreshToken_no_token [OF assms]
      by (simp add: finish_Logout store_logout_cleared [of e "v\<lparr>promises := promises v @ [None]\<rparr>", simplified])
    then show ?thesis using Resp True by (simp add: on_response_def logout_options_simps)
  next
    case False
    then show ?thesis using Resp by (simp add: on_response_def finish_Logout)
  qed
qed

text \<open>
  C5, amended. When \<open>refreshToken\<close> is invoked while no refresh runs and no refresh token is
  stored, it returns false (the request that called it ends with the result
  \<open>Authentication failed\<close>), no refresh runs afterwards and no refresh-token exchange is sent.
  If the store holds no access token either, nothing is sent at all and the session is
  cleared when \<open>refreshToken\<close> returns. If it holds an access token, \<open>logout\<close> sends
  \<open>POST users/logout\<close> with it, the session is still in the store when \<open>refreshToken\<close>
  returns, and it is cleared as soon as that request is answered, whatever the answer.
\<close>

theorem refresh_without_refresh_token:
  assumes "\<not> isRefreshing w" and "getRefreshToken (store w) = None"
  shows "results (refreshToken e (\<lambda>p j. AwaitRefresh p j f u opts (Caller k) r t) w) =
           results w @
             [(k, Returned \<lparr>data = JNull,
                            error = JStr ''Authentication failed. Please log in again.'',
                            status = 401\<rparr>)] \<and>
         \<not> isRefreshing (refreshToken e (\<lambda>p j. AwaitRefresh p j f u opts (Caller k) r t) w) \<and>
         refresh_calls (refreshToken e (\<lambda>p j. AwaitRefresh p j f u opts (Caller k) r t) w) =
           refresh_calls w \<and>
         (getAuthToken (store w) = None \<longrightarrow>
            sent (refreshToken e (\<lambda>p j. AwaitRefresh p j f u opts (Caller k) r t) w) = sent w \<and>
            tasks (refreshToken e (\<lambda>p j. AwaitRefresh p j f u opts (Caller k) r t) w) = tasks w \<and>
            store (refreshToken e (\<lambda>p j. AwaitRefresh p j f u opts (Caller k) r t) w) =
              clear_session (store w)) \<and>
         (\<forall>a. getAuthToken (store w) = Some a \<longrightarrow>
            sent (refreshToken e (\<lambda>p j. AwaitRefresh p j f u opts (Caller k) r t) w) =
              sent w @ [(Fetch_request, logout_request e a)] \<and>
            tasks (refreshToken e (\<lambda>p j. AwaitRefresh p j f u opts (Caller k) r t) w) =
              tasks w @
                [AwaitFetch (length (sent w)) (formatUrl e ''users/logout'') logout_options Logout] \<and>
            store (refreshToken e (\<lambda>p j. AwaitRefresh p j f u opts (Caller k) r t) w) = store w \<and>
            ((\<forall>t\<in>set (tasks w). \<not> awaits_fetch (length (sent w)) t) \<longrightarrow>
             (\<forall>fr. store (step e (refreshToken e (\<lambda>p j. AwaitRefresh p j f u opts (Caller k) r t) w)
                           (Deliver (length (sent w)) fr)) =
                   clear_session (store w))))"
proof -
  let ?W = "refreshToken e (\<lambda>p j. AwaitRefresh p j f u opts (Caller k) r t) w"
  note eq = refreshToken_no_token [OF assms, of e f u opts "Caller k" r t]
  have A: "results ?W = results w @ [(k, Returned auth_failed)]" "\<not> isRefreshing ?W"
          "refresh_calls ?W = refresh_calls w"
    unfolding eq by (simp_all add: finish_def logout_eq refresh_calls_def split: option.splits)
  have B: "sent ?W = sent w \<and> tasks ?W = tasks w \<and> store ?W = clear_session (store w)"
    if "getAuthToken (store w) = None"
    unfolding eq using that by (simp add: finish_def logout_eq)
  have C: "sent ?W = sent w @ [(Fetch_request, logout_request e a)] \<and>
           tasks ?W = tasks w @ [AwaitFetch (length (sent w)) (formatUrl e ''users/logout'') logout_options Logout] \<and>
           store ?W = store w"
    if "getAuthToken (store w) = Some a" for a
    unfolding eq using that by (simp add: finish_def logout_eq logout_request_def)
  have D: "store (step e ?W (Deliver (length (sent w)) fr)) = clear_session (store w)"
    if tok: "getAuthToken (store w) = Some a" and free: "\<forall>t\<in>set (tasks w). \<not> awaits_fetch (length (sent w)) t" for a fr
  proof -
    let ?n = "length (sent w)"
    let ?lt = "AwaitFetch ?n (formatUrl e ''users/logout'') logout_options Logout"
    let ?X = "?W\<lparr>tasks := tasks w\<rparr>"
    have x1: "?W = ?X\<lparr>tasks := tasks ?X @ [?lt]\<rparr>" using C [OF tok] by simp
    have x2: "\<forall>t\<in>set (tasks ?X). \<not> awaits_fetch ?n t" using free by simp
    have x3: "awaits_fetch ?n ?lt" by (simp add: awaits_fetch_def)
    have "deliver e ?n fr (?X\<lparr>tasks := tasks ?X @ [?lt]\<rparr>) = resume e fr ?lt ?X"
      using deliver_new [OF x2 x3] .
    then have x4: "deliver e ?n fr ?W = on_response e ?n (formatUrl e ''users/logout'') logout_options Logout fr ?X"
      using x1 by simp
    have x5: "\<not> isRefreshing ?X" using A(2) by simp
    have x6: "store ?X = store w" using C [OF tok] by simp
    have x7: "getRefreshToken (store ?X) = None" using x6 assms(2) by simp
    show ?thesis using logout_task_answered [OF x5 x7, of e ?n "formatUrl e ''users/logout''" fr] x4 x6 by simp
  qed
  show ?thesis using A B C D by (simp add: auth_failed_def)
qed

lemma idle_access_only:
  "\<not> isRefreshing (idle access_only_session) \<and>
   getRefreshToken (store (idle access_only_session)) = None \<and>
   getAuthToken (store (idle access_only_session)) = Some (JStr ''old'') \<and>
   sent (idle access_only_session) = [] \<and> tasks (idle access_only_session) = [] \<and>
   results (idle access_only_session) = [] \<and>
   store (idle access_only_session) = access_only_session"
  by (simp add: idle_def access_only_session_def sample_session_def getRefreshToken_def getAuthToken_def)

theorem refresh_without_refresh_token_witness:
  "\<not> isRefreshing (idle access_only_session) \<and>
   getRefreshToken (store (idle access_only_session)) = None \<and>
   getAuthToken (store (idle access_only_session)) = Some (JStr ''old'') \<and>
   results (refreshToken sample_env
      (\<lambda>p j. AwaitRefresh p j 0 ''http://host/jobs'' no_options (Caller 0) unauthorized None)
      (idle access_only_session)) =
     [(0, Returned \<lparr>data = JNull, error = JStr ''Authentication failed. Please log in again.'',
                    status = 401\<rparr>)] \<and>
   sent (refreshToken sample_env
      (\<lambda>p j. AwaitRefresh p j 0 ''http://host/jobs'' no_options (Caller 0) unauthorized None)
      (idle access_only_session)) =
     [(Fetch_request, logout_request sample_env (JStr ''old''))] \<and>
   store (step sample_env
      (refreshToken sample_env
         (\<lambda>p j. AwaitRefresh p j 0 ''http://host/jobs'' no_options (Caller 0) unauthorized None)
         (idle access_only_session))
      (Deliver 0 (Resp ok_true))) = clear_session access_only_session \<and>
   getAuthToken (clear_session access_only_session) = None \<and>
   getRefreshToken (clear_session access_only_session) = None \<and>
   user (clear_session access_only_session) = None"
proof -
  let ?k = "\<lambda>p j. AwaitRefresh p j 0 ''http://host/jobs'' no_options (Caller 0) unauthorized None"
  let ?W = "refreshToken sample_env ?k (idle access_only_session)"
  have a: "\<not> isRefreshing (idle access_only_session)"
    and b: "getRefreshToken (store (idle access_only_session)) = None"
    and g: "getAuthToken (store (idle access_only_session)) = Some (JStr ''old'')"
    and s0: "sent (idle access_only_session) = []"
    and t0: "tasks (idle access_only_session) = []"
    and r0: "results (idle access_only_session) = []"
    and st: "store (idle access_only_session) = access_only_session"
    using idle_access_only by blast+
  note T = refresh_without_refresh_token [OF a b, of sample_env 0 "''http://host/jobs''" no_options 0
        unauthorized None]
  have r: "results ?W =
     [(0, Returned \<lparr>data = JNull, error = JStr ''Authentication failed. Please log in again.'',
                    status = 401\<rparr>)]"
    using T r0 by simp
  have free: "\<forall>t\<in>set (tasks (idle access_only_session)).
                \<not> awaits_fetch (length (sent (idle access_only_session))) t"
    using t0 by simp
  have "sent ?W = sent (idle access_only_session) @ [(Fetch_request, logout_request sample_env (JStr ''old''))]"
    using T g by blast
  then have s: "sent ?W = [(Fetch_request, logout_request sample_env (JStr ''old''))]"
    using s0 by simp
  have "store (step sample_env ?W (Deliver (length (sent (idle access_only_session))) (Resp ok_true))) =
        clear_session (store (idle access_only_session))"
    using T g free by blast
  then have d: "store (step sample_env ?W (Deliver 0 (Resp ok_true))) = clear_session access_only_session"
    using s0 st by simp
  have c: "user (clear_session access_only_session) = None" by (simp add: clear_session_def)
  show ?thesis
    using a b g r s d c by (simp add: getAuthToken_clear getRefreshToken_clear)
qed

text \<open>
  C5, as stated, fails: with an access token and no refresh token in the store, a request is
  sent (\<open>POST users/logout\<close>) and the session is still in the store when the caller has
  received its result.
\<close>

theorem logout_request_counterexample:
  "getRefreshToken access_only_session = None \<and>
   sent (run sample_env (idle access_only_session)
      [Call 0 ''jobs'' no_options, Deliver 0 (Resp unauthorized)]) =
   [(Fetch_request,
     \<lparr>url = ''http://localhost:3000/api/jobs'', init_method = GET,
      init_headers = [(''Content-Type'', Plain ''application/json''),
                      (''Authorization'', Bearer (JStr ''old''))],
      init_body = None\<rparr>),
    (Fetch_request,
     \<lparr>url = ''http://localhost:3000/api/users/logout'', init_method = POST,
      init_headers = [(''Content-Type'', Plain ''application/json''),
                      (''Authorization'', Bearer (JStr ''old''))],
      init_body = Some (JObj [])\<rparr>)] \<and>
   results (run sample_env (idle access_only_session)
      [Call 0 ''jobs'' no_options, Deliver 0 (Resp unauthorized)]) =
   [(0, Returned \<lparr>data = JNull, error = JStr ''Authentication failed. Please log in again.'',
                  status = 401\<rparr>)] \<and>
   getAuthToken (store (run sample_env (idle access_only_session)
      [Call 0 ''jobs'' no_options, Deliver 0 (Resp unauthorized)])) = Some (JStr ''old'')"
  by code_simp

lemma clear_update: "clear_session (updateTokens s t) = clear_session s"
  by (simp add: clear_session_def updateTokens_def)

lemma deliver_single:
  "tasks w = [t] \<Longrightarrow> awaits_fetch m t \<Longrightarrow> deliver e m fr w = resume e fr t (w\<lparr>tasks := []\<rparr>)"
  by (simp add: deliver_def)

lemma deliver_idle: "tasks w = [] \<Longrightarrow> deliver e m fr w = w"
  by (simp add: deliver_def)

lemma last_logout:
  assumes "\<not> isRefreshing w" and "tasks w = [AwaitFetch m lu logout_options Logout]"
      and "getAuthToken (store w) = None" and "getRefreshToken (store w) = None"
  shows "tasks (deliver e m fr w) = [] \<and> store (deliver e m fr w) = clear_session (store w)"
proof -
  let ?v = "w\<lparr>tasks := []\<rparr>"
  have d: "deliver e m fr w = on_response e m lu logout_options Logout fr ?v"
    using deliver_single [OF assms(2), of m e fr] by (simp add: awaits_fetch_def)
  have v: "\<not> isRefreshing ?v" "getRefreshToken (store ?v) = None" "getAuthToken (store ?v) = None"
    using assms by simp_all
  show ?thesis
  proof (cases fr)
    case (Failed x)
    then show ?thesis using d by (simp add: on_response_def finish_Logout)
  next
    case (Resp r2)
    show ?thesis
    proof (cases "resp_status r2 = 401")
      case True
      show ?thesis using d Resp True v(3) unfolding on_response_def
        by (simp add: logout_options_simps refreshToken_no_token [OF v(1,2)] logout_eq finish_Logout clear_clear)
    next
      case False
      then show ?thesis using d Resp by (simp add: on_response_def finish_Logout)
    qed
  qed
qed

lemma first_logout_answer:
  assumes "\<not> isRefreshing w" and "tasks w = [AwaitFetch n lu logout_options Logout]"
      and "length (sent w) = Suc n"
  shows "(tasks (deliver e n fr w) = [] \<and> store (deliver e n fr w) = clear_session (store w)) \<or>
         (\<not> isRefreshing (deliver e n fr w) \<and>
          tasks (deliver e n fr w) =
            [AwaitFetch (Suc n) (formatUrl e ''users/logout'') logout_options Logout] \<and>
          store (deliver e n fr w) = clear_session (store w)) \<or>
         (\<exists>p r2. tasks (deliver e n fr w) =
                   [AwaitExchange (Suc n) p,
                    AwaitRefresh p False n lu logout_options Logout r2 (resp_body r2)] \<and>
                 store (deliver e n fr w) = store w \<and>
                 length (sent (deliver e n fr w)) = Suc (Suc n))"
proof -
  let ?v = "w\<lparr>tasks := []\<rparr>"
  have d: "deliver e n fr w = on_response e n lu logout_options Logout fr ?v"
    using deliver_single [OF assms(2), of n e fr] by (simp add: awaits_fetch_def)
  have v: "\<not> isRefreshing ?v" using assms by simp
  show ?thesis
  proof (cases fr)
    case (Failed x)
    then show ?thesis using d by (simp add: on_response_def finish_Logout)
  next
    case (Resp r2)
    show ?thesis
    proof (cases "resp_status r2 = 401")
      case False
      then show ?thesis using d Resp by (simp add: on_response_def finish_Logout)
    next
      case True
      have d2: "deliver e n fr w =
            refreshToken e (\<lambda>p j. AwaitRefresh p j n lu logout_options Logout r2 (resp_body r2)) ?v"
        using d Resp True by (simp add: on_response_def logout_options_simps)
      show ?thesis
      proof (cases "getRefreshToken (store w)")
        case None
        then have n: "getRefreshToken (store ?v) = None" by simp
        show ?thesis unfolding d2 refreshToken_no_token [OF v n] using assms(3)
          by (simp add: logout_eq finish_Logout clear_clear split: option.splits)
      next
        case (Some rt)
        then show ?thesis unfolding d2 using assms(1,3)
          by (simp add: refreshToken_def executor_def fetch_def await_promise_def nth_append Let_def)
      qed
    qed
  qed
qed

lemma exchange_result_cases:
  "exchange_result e fr v = (logout e v, False) \<or>
   (\<exists>d. exchange_result e fr v = (v\<lparr>store := updateTokens (store v) d\<rparr>, True))"
  by (auto simp: exchange_result_def split: fetch_result.splits option.splits)

lemma exchange_answer_for_logout:
  assumes "tasks w = [AwaitExchange m p, AwaitRefresh p False n lu logout_options Logout r2 t2]"
      and "length (sent w) = Suc m"
  shows "(tasks (deliver e m fr w) = [] \<and> store (deliver e m fr w) = clear_session (store w)) \<or>
         (\<not> isRefreshing (deliver e m fr w) \<and>
          tasks (deliver e m fr w) =
            [AwaitFetch (Suc m) (formatUrl e ''users/logout'') logout_options Logout] \<and>
          store (deliver e m fr w) = clear_session (store w)) \<or>
         (tasks (deliver e m fr w) = [AwaitRetry (Suc m) lu logout_options Logout t2] \<and>
          clear_session (store (deliver e m fr w)) = clear_session (store w))"
proof -
  let ?v = "w\<lparr>tasks := [AwaitRefresh p False n lu logout_options Logout r2 t2]\<rparr>"
  have d: "deliver e m fr w = on_exchange_response e p fr ?v"
    using assms(1) by (simp add: deliver_def awaits_fetch_def)
  from exchange_result_cases [of e fr ?v] show ?thesis
  proof
    assume x: "exchange_result e fr ?v = (logout e ?v, False)"
    show ?thesis unfolding d on_exchange_response_def x using assms
      by (simp add: logout_eq settle_def wake_def waits_on_def processQueue_def finish_Logout
            clear_clear Let_def split: option.splits)
  next
    assume "\<exists>d. exchange_result e fr ?v = (?v\<lparr>store := updateTokens (store ?v) d\<rparr>, True)"
    then obtain dd where x: "exchange_result e fr ?v = (?v\<lparr>store := updateTokens (store ?v) dd\<rparr>, True)"
      by blast
    show ?thesis unfolding d on_exchange_response_def x using assms
      by (simp add: settle_def wake_def waits_on_def processQueue_def finish_Logout fetch_def
            clear_clear clear_update Let_def split: option.splits)
  qed
qed

lemma retry_answer_for_logout:
  "tasks w = [AwaitRetry m lu opts Logout t] \<Longrightarrow>
   tasks (deliver e m fr w) = [] \<and> store (deliver e m fr w) = clear_session (store w)"
  by (simp add: deliver_def awaits_fetch_def on_retry_response_def finish_Logout
      split: fetch_result.splits)

lemma logout_settles:
  assumes "\<not> isRefreshing w" and "tasks w = [AwaitFetch n lu logout_options Logout]"
      and "length (sent w) = Suc n"
  shows "store (run e w [Deliver n fr2, Deliver (Suc n) fr3, Deliver (Suc (Suc n)) fr4]) =
         clear_session (store w)"
proof -
  let ?W1 = "deliver e n fr2 w"
  let ?W2 = "deliver e (Suc n) fr3 ?W1"
  let ?W3 = "deliver e (Suc (Suc n)) fr4 ?W2"
  have r: "run e w [Deliver n fr2, Deliver (Suc n) fr3, Deliver (Suc (Suc n)) fr4] = ?W3"
    by (simp add: run_def)
  have lst: "tasks (deliver e a fa v) = [] \<and> store (deliver e a fa v) = clear_session (store w)"
    if "\<not> isRefreshing v" and "tasks v = [AwaitFetch a (formatUrl e ''users/logout'') logout_options Logout]"
      and "store v = clear_session (store w)" for a fa v
    using last_logout [OF that(1,2), of e fa] that(3)
    by (simp add: getAuthToken_clear getRefreshToken_clear clear_clear)
  from first_logout_answer [OF assms, of e fr2]
  consider (fin) "tasks ?W1 = []" "store ?W1 = clear_session (store w)"
    | (lst1) "\<not> isRefreshing ?W1"
        "tasks ?W1 = [AwaitFetch (Suc n) (formatUrl e ''users/logout'') logout_options Logout]"
        "store ?W1 = clear_session (store w)"
    | (exch) p r2 where
        "tasks ?W1 = [AwaitExchange (Suc n) p,
                     AwaitRefresh p False n lu logout_options Logout r2 (resp_body r2)]"
        "store ?W1 = store w" "length (sent ?W1) = Suc (Suc n)"
    by blast
  then have "store ?W3 = clear_session (store w)"
  proof cases
    case fin
    then show ?thesis by (simp add: deliver_idle)
  next
    case lst1
    from lst [OF this, of fr3] show ?thesis by (simp add: deliver_idle)
  next
    case exch
    from exchange_answer_for_logout [OF exch(1,3), of e fr3]
    consider (fin2) "tasks ?W2 = []" "store ?W2 = clear_session (store ?W1)"
      | (last2) "\<not> isRefreshing ?W2"
          "tasks ?W2 = [AwaitFetch (Suc (Suc n)) (formatUrl e ''users/logout'') logout_options Logout]"
          "store ?W2 = clear_session (store ?W1)"
      | (retry2) "tasks ?W2 = [AwaitRetry (Suc (Suc n)) lu logout_options Logout (resp_body r2)]"
          "clear_session (store ?W2) = clear_session (store ?W1)"
      by blast
    then show ?thesis
    proof cases
      case fin2
      then show ?thesis using exch(2) by (simp add: deliver_idle)
    next
      case last2
      have "store ?W2 = clear_session (store w)" using last2(3) exch(2) by simp
      from lst [OF last2(1,2) this, of fr4] show ?thesis by simp
    next
      case retry2
      from retry_answer_for_logout [OF retry2(1), of e fr4] show ?thesis
        using retry2(2) exch(2) by simp
    qed
  qed
  then show ?thesis using r by simp
qed

lemma failed_exchange:
  assumes "tasks w = [AwaitExchange x p, AwaitRefresh p j f u opts (Caller k) r t]"
      and "\<not> ok rr"
  shows "results (step e w (Deliver x (Resp rr))) = results w @ [(k, Returned auth_failed)] \<and>
         \<not> isRefreshing (step e w (Deliver x (Resp rr))) \<and>
         (getAuthToken (store w) = None \<longrightarrow>
            sent (step e w (Deliver x (Resp rr))) = sent w \<and>
            tasks (step e w (Deliver x (Resp rr))) = [] \<and>
            store (step e w (Deliver x (Resp rr))) = clear_session (store w)) \<and>
         (\<forall>a. getAuthToken (store w) = Some a \<longrightarrow>
            sent (step e w (Deliver x (Resp rr))) = sent w @ [(Fetch_request, logout_request e a)] \<and>
            tasks (step e w (Deliver x (Resp rr))) =
              [AwaitFetch (length (sent w)) (formatUrl e ''users/logout'') logout_options Logout] \<and>
            store (step e w (Deliver x (Resp rr))) = store w)"
proof -
  let ?v = "w\<lparr>tasks := [AwaitRefresh p j f u opts (Caller k) r t]\<rparr>"
  have d: "step e w (Deliver x (Resp rr)) = on_exchange_response e p (Resp rr) ?v"
    using assms(1) by (simp add: deliver_def awaits_fetch_def)
  have x: "exchange_result e (Resp rr) ?v = (logout e ?v, False)"
    using assms(2) by (simp add: exchange_result_def)
  show ?thesis unfolding d on_exchange_response_def x
    by (simp add: logout_eq settle_def wake_def waits_on_def processQueue_def finish_def
          logout_request_def Let_def split: option.splits)
qed

text \<open>
  C4, amended. When the refresh-token exchange is answered with a status outside 200 to 299,
  \<open>refreshToken\<close> returns false: the caller that awaits the refresh receives exactly
  \<open>{data: null, error: "Authentication failed. Please log in again.", status: 401}\<close>, the
  original request is not sent again, and no refresh runs afterwards. \<open>logout\<close> is started but
  not awaited. With no access token in the store the session is cleared at once. With an
  access token, \<open>logout\<close> first sends \<open>POST users/logout\<close>: the session is still in the store
  when the caller receives its result, and it is cleared at the latest when that request and
  the two requests it can cause in turn (a further exchange after a 401, then a retry or a
  further \<open>POST users/logout\<close>) have been answered, whatever the answers.
\<close>

theorem failed_refresh_ends_session:
  assumes "tasks w = [AwaitExchange x p, AwaitRefresh p j f u opts (Caller k) r t]"
      and "\<not> ok rr"
  shows "results (step e w (Deliver x (Resp rr))) =
           results w @
             [(k, Returned \<lparr>data = JNull,
                            error = JStr ''Authentication failed. Please log in again.'',
                            status = 401\<rparr>)] \<and>
         \<not> isRefreshing (step e w (Deliver x (Resp rr))) \<and>
         (getAuthToken (store w) = None \<longrightarrow>
            sent (step e w (Deliver x (Resp rr))) = sent w \<and>
            tasks (step e w (Deliver x (Resp rr))) = [] \<and>
            store (step e w (Deliver x (Resp rr))) = clear_session (store w)) \<and>
         (\<forall>a. getAuthToken (store w) = Some a \<longrightarrow>
            sent (step e w (Deliver x (Resp rr))) = sent w @ [(Fetch_request, logout_request e a)] \<and>
            tasks (step e w (Deliver x (Resp rr))) =
              [AwaitFetch (length (sent w)) (formatUrl e ''users/logout'') logout_options Logout] \<and>
            store (step e w (Deliver x (Resp rr))) = store w \<and>
            (\<forall>fr2 fr3 fr4.
               store (run e (step e w (Deliver x (Resp rr)))
                       [Deliver (length (sent w)) fr2,
                        Deliver (Suc (length (sent w))) fr3,
                        Deliver (Suc (Suc (length (sent w)))) fr4]) =
               clear_session (store w)))"
proof -
  let ?W = "step e w (Deliver x (Resp rr))"
  note F = failed_exchange [OF assms, of e]
  have L: "store (run e ?W [Deliver (length (sent w)) fr2, Deliver (Suc (length (sent w))) fr3,
                            Deliver (Suc (Suc (length (sent w)))) fr4]) = clear_session (store w)"
    if tok: "getAuthToken (store w) = Some a" for a fr2 fr3 fr4
  proof -
    have a: "\<not> isRefreshing ?W" using F by blast
    have b: "tasks ?W = [AwaitFetch (length (sent w)) (formatUrl e ''users/logout'') logout_options Logout]"
      using F tok by blast
    have c: "length (sent ?W) = Suc (length (sent w))" using F tok by simp
    have s: "store ?W = store w" using F tok by blast
    show ?thesis using logout_settles [OF a b c, of e fr2 fr3 fr4] s by simp
  qed
  show ?thesis using F L by (simp add: auth_failed_def)
qed

lemma refreshing_world_tasks:
  "tasks refreshing_world =
     [AwaitExchange 1 0,
      AwaitRefresh 0 False 0 ''http://localhost:3000/api/jobs'' no_options (Caller 0) unauthorized
        (resp_body unauthorized)] \<and>
   getAuthToken (store refreshing_world) = Some (JStr ''old'') \<and>
   length (sent refreshing_world) = 2 \<and> results refreshing_world = []"
  unfolding refreshing_world_def by code_simp

theorem failed_refresh_ends_session_witness:
  "resp_status forbidden = 403 \<and> \<not> ok forbidden \<and>
   getAuthToken (store refreshing_world) = Some (JStr ''old'') \<and>
   results (step sample_env refreshing_world (Deliver 1 (Resp forbidden))) =
     [(0, Returned \<lparr>data = JNull, error = JStr ''Authentication failed. Please log in again.'',
                    status = 401\<rparr>)] \<and>
   store (step sample_env refreshing_world (Deliver 1 (Resp forbidden))) = store refreshing_world \<and>
   store (run sample_env (step sample_env refreshing_world (Deliver 1 (Resp forbidden)))
            [Deliver 2 (Resp unauthorized), Deliver 3 (Resp forbidden), Deliver 4 (Resp unauthorized)]) =
     clear_session (store refreshing_world) \<and>
   getAuthToken (clear_session (store refreshing_world)) = None"
proof -
  have a: "tasks refreshing_world =
     [AwaitExchange 1 0,
      AwaitRefresh 0 False 0 ''http://localhost:3000/api/jobs'' no_options (Caller 0) unauthorized
        (resp_body unauthorized)]"
    using refreshing_world_tasks by blast
  have b: "\<not> ok forbidden" "resp_status forbidden = 403" by (simp_all add: ok_def forbidden_def)
  have c: "getAuthToken (store refreshing_world) = Some (JStr ''old'')"
    "length (sent refreshing_world) = 2" "results refreshing_world = []"
    using refreshing_world_tasks by simp_all
  have n: "Suc (Suc 0) = 2" "Suc 2 = 3" "Suc 3 = 4" by simp_all
  show ?thesis
    using failed_refresh_ends_session [OF a b(1), of sample_env] b c
    by (simp add: getAuthToken_clear n)
qed

text \<open>
  C4, as stated, fails: when the caller has received its result, the access token is still in
  the store, since \<open>logout\<close> clears the store only after its own request has settled.
\<close>

theorem session_kept_after_failed_refresh_counterexample:
  "resp_status forbidden = 403 \<and>
   results (run sample_env (idle sample_session)
      [Call 0 ''jobs'' no_options, Deliver 0 (Resp unauthorized), Deliver 1 (Resp forbidden)]) =
   [(0, Returned \<lparr>data = JNull, error = JStr ''Authentication failed. Please log in again.'',
                  status = 401\<rparr>)] \<and>
   getAuthToken (store (run sample_env (idle sample_session)
      [Call 0 ''jobs'' no_options, Deliver 0 (Resp unauthorized), Deliver 1 (Resp forbidden)])) =
   Some (JStr ''old'')"
  by code_simp

section \<open>The request is reissued at most once\<close>















































end
